theory Spec2Isabelle
  imports Main "HOL-Library.AList"
begin

section \<open>Data model of the hybrid botanist's addon charts\<close>

text \<open>
  The development embeds \<^verbatim>\<open>pkg/operation/hybridbotanist/addons.go\<close>: the three
  functions \<^verbatim>\<open>generateCoreAddonsChart\<close>, \<^verbatim>\<open>generateOptionalAddonsChart\<close> and
  \<^verbatim>\<open>generateAdmissionControlsChart\<close>. Go's \<^verbatim>\<open>[]byte\<close> is a list of characters
  (a \<open>char\<close> is a byte); a nil slice and an empty one are both \<open>[]\<close>.
\<close>

type_synonym bytes = string

text \<open>
  \<^verbatim>\<open>interface{}\<close> values that the file stores in its configuration maps: strings,
  byte slices, booleans, slices and string-keyed maps. A Go map is an association list
  read with \<^const>\<open>map_of\<close>; the literals of the source have distinct keys.
\<close>

datatype cfg =
    VStr string
  | VBytes bytes
  | VBool bool
  | VList "cfg list"
  | VMap "(string \<times> cfg) list"

type_synonym config = "(string \<times> cfg) list"

text \<open>
  Go errors. \<^verbatim>\<open>apierrors.IsNotFound\<close> holds of an API status error whose reason is
  \<^verbatim>\<open>NotFound\<close> and of no other error.
\<close>

datatype StatusReason =
    StatusReasonNotFound
  | StatusReasonAlreadyExists
  | StatusReasonForbidden
  | StatusReasonUnknown

datatype error =
    StatusError StatusReason string
  | OtherError string

fun IsNotFound :: "error \<Rightarrow> bool" where
  "IsNotFound (StatusError r m) = (r = StatusReasonNotFound)"
| "IsNotFound (OtherError m) = False"

text \<open>\<^verbatim>\<open>corev1.Secret\<close>: only the field \<^verbatim>\<open>Data map[string][]byte\<close> is read.\<close>

record Secret =
  Data :: "(string \<times> bytes) list"

text \<open>\<^verbatim>\<open>secret.Data[key]\<close>: a missing key reads as the nil slice.\<close>

definition dataAt :: "Secret \<Rightarrow> string \<Rightarrow> bytes" where
  "dataAt s k = (case map_of (Data s) k of None \<Rightarrow> [] | Some v \<Rightarrow> v)"

text \<open>A \<^verbatim>\<open>map[string][]byte\<close> stored as a configuration value.\<close>

definition dataValue :: "(string \<times> bytes) list \<Rightarrow> cfg" where
  "dataValue m = VMap (map (\<lambda>(k, v). (k, VBytes v)) m)"

text \<open>The part of the shoot specification that the file reads. Pointers are options.\<close>

record KubeProxyConfig =
  FeatureGates :: "(string \<times> bool) list"

record Kubernetes =
  KubeProxy :: "KubeProxyConfig option"

record NginxIngress =
  LoadBalancerSourceRanges :: "string list"

record Addons =
  NginxIngress :: "NginxIngress option"

record ShootSpec =
  Kubernetes :: Kubernetes
  Addons :: "Addons option"

record ShootInfo =
  Spec :: ShootSpec

record Shoot =
  Info :: ShootInfo
  CloudProvider :: string

text \<open>
  The fields of \<^verbatim>\<open>HybridBotanist\<close> that carry data: \<^verbatim>\<open>Secrets\<close> is a
  \<^verbatim>\<open>map[string]*corev1.Secret\<close>, so a key is absent (\<open>None\<close>), or holds the nil
  pointer (\<open>Some None\<close>), or holds a secret; \<^verbatim>\<open>CheckSums\<close> is a
  \<^verbatim>\<open>map[string]string\<close> (a missing key reads as the empty string).
\<close>

record HybridBotanist =
  Secrets :: "string \<rightharpoonup> Secret option"
  CheckSums :: "string \<rightharpoonup> string"
  Shoot :: Shoot

text \<open>
  \<^verbatim>\<open>b.Secrets[name]\<close>: the pointer stored under the key, and the nil pointer when the
  key is missing.
\<close>

definition secretAt :: "HybridBotanist \<Rightarrow> string \<Rightarrow> Secret option" where
  "secretAt b name = (case Secrets b name of None \<Rightarrow> None | Some pointer \<Rightarrow> pointer)"

definition checkSum :: "HybridBotanist \<Rightarrow> string \<Rightarrow> string" where
  "checkSum b k = (case CheckSums b k of None \<Rightarrow> [] | Some c \<Rightarrow> c)"

record Deployment =
  Name :: string

text \<open>
  Modelled from the spec: the \<^verbatim>\<open>chartrenderer.RenderedChart\<close> type is not part of the
  sources at hand; the specification calls it the Rendered Bundle, an ordered list of
  fully substituted manifest documents.
\<close>

type_synonym RenderedChart = "string list"

text \<open>Constants of the Kubernetes API packages.\<close>

definition NamespaceSystem :: string where
  "NamespaceSystem = ''kube-system''"

definition SecretTypeOpaque :: string where
  "SecretTypeOpaque = ''Opaque''"

section \<open>Calls to collaborators, and their record\<close>

text \<open>
  Every operation that can return an error leaves the file: the botanist's configuration
  generators and image injection, the provider-specific generators of the
  \<^verbatim>\<open>ShootCloudBotanist\<close>, the client of the shoot cluster and the chart renderer. The
  model records each such call, with its arguments and its outcome, in a trace.
\<close>

datatype call =
    GenerateClusterAutoscalerConfigCall
  | GenerateHelmTillerConfigCall
  | GenerateKubeLegoConfigCall
  | GenerateKube2IAMConfigCall
  | GenerateKubernetesDashboardConfigCall
  | GenerateMonocularConfigCall
  | GenerateNginxIngressConfigCall
  | GenerateAdmissionControlConfigCall
  | InjectImagesCall config string "(string \<times> string) list"
  | CreateSecretCall string string string "(string \<times> bytes) list" bool
  | ListDeploymentsCall string string
  | DeleteDeploymentCall string string
  | RenderCall string string string config

datatype reply =
    RConfig config
  | RDeployments "Deployment list"
  | RChart RenderedChart
  | RUnit

type_synonym event = "call \<times> (error + reply)"

record 'w state =
  trace :: "event list"
  world :: 'w

text \<open>
  What a Go function call can do here: panic on a nil pointer, return an error (with a
  nil result), or return a result (with a nil error).
\<close>

datatype 'a result = Panic | Err error | Ok 'a

type_synonym ('w, 'a) op = "'w state \<Rightarrow> 'a result \<times> 'w state"

type_synonym ('w, 'a) remote = "'w \<Rightarrow> (error + 'a) \<times> 'w"

definition ret :: "'a \<Rightarrow> ('w, 'a) op" where
  "ret a s = (Ok a, s)"

text \<open>Reading a field through a pointer: a nil pointer panics.\<close>

definition deref :: "'a option \<Rightarrow> ('w, 'a) op" where
  "deref p s = (case p of None \<Rightarrow> (Panic, s) | Some x \<Rightarrow> (Ok x, s))"

text \<open>
  \<^verbatim>\<open>x, err := f(); if err != nil { return nil, err }\<close> followed by the rest of the
  function body.
\<close>

definition seq :: "('w, 'a) op \<Rightarrow> ('a \<Rightarrow> ('w, 'b) op) \<Rightarrow> ('w, 'b) op" where
  "seq m f s =
     (case m s of
        (Panic, s') \<Rightarrow> (Panic, s')
      | (Err e, s') \<Rightarrow> (Err e, s')
      | (Ok a, s') \<Rightarrow> f a s')"

text \<open>One call to a collaborator: it acts on the world, and the trace grows by one event.\<close>

definition invoke :: "call \<Rightarrow> ('a \<Rightarrow> reply) \<Rightarrow> ('w, 'a) remote \<Rightarrow> ('w, 'a) op" where
  "invoke c wrap f s =
     (case f (world s) of
        (Inl e, w) \<Rightarrow> (Err e, \<lparr>trace = trace s @ [(c, Inl e)], world = w\<rparr>)
      | (Inr a, w) \<Rightarrow> (Ok a, \<lparr>trace = trace s @ [(c, Inr (wrap a))], world = w\<rparr>))"

text \<open>
  The collaborators, none of which is part of the sources at hand. They are parameters:
  the theorems hold for every behaviour of theirs. \<^verbatim>\<open>Join\<close> is \<^verbatim>\<open>filepath.Join\<close>,
  \<^verbatim>\<open>Version\<close> the version string of the shoot client, and the last four fields are
  constants of the repository's \<^verbatim>\<open>common\<close>, \<^verbatim>\<open>gardenv1beta1\<close> and \<^verbatim>\<open>secrets\<close>
  packages. A collaborator that can fail takes the world and returns the new one with
  either an error or its result.
\<close>

record 'w deps =
  GetPodNetwork :: "Shoot \<Rightarrow> string"
  GetServiceNetwork :: "Shoot \<Rightarrow> string"
  GetNodeNetwork :: "Shoot \<Rightarrow> string"
  NginxIngressEnabled :: "Shoot \<Rightarrow> bool"
  IsUsedAsSeed :: "ShootInfo \<Rightarrow> bool"
  ComputeClusterIP :: "string \<Rightarrow> nat \<Rightarrow> string"
  MergeMaps :: "config \<Rightarrow> config \<Rightarrow> config"
  Join :: "string \<Rightarrow> string \<Rightarrow> string"
  Version :: string
  InjectImages :: "config \<Rightarrow> string \<Rightarrow> (string \<times> string) list \<Rightarrow> ('w, config) remote"
  GenerateClusterAutoscalerConfig :: "('w, config) remote"
  GenerateHelmTillerConfig :: "('w, config) remote"
  GenerateKubeLegoConfig :: "('w, config) remote"
  GenerateKube2IAMConfig :: "('w, config) remote"
  GenerateKubernetesDashboardConfig :: "('w, config) remote"
  GenerateMonocularConfig :: "('w, config) remote"
  GenerateNginxIngressConfig :: "('w, config) remote"
  GenerateAdmissionControlConfig :: "('w, config) remote"
  CreateSecret :: "string \<Rightarrow> string \<Rightarrow> string \<Rightarrow> (string \<times> bytes) list \<Rightarrow> bool \<Rightarrow> ('w, unit) remote"
  ListDeployments :: "string \<Rightarrow> string \<Rightarrow> ('w, Deployment list) remote"
  DeleteDeployment :: "string \<Rightarrow> string \<Rightarrow> ('w, unit) remote"
  Render :: "string \<Rightarrow> string \<Rightarrow> string \<Rightarrow> config \<Rightarrow> ('w, RenderedChart) remote"
  ChartPath :: string
  DefaultDomain :: string
  DataKeyCertificateCA :: string
  GardenRoleOpenVPNDiffieHellman :: string

definition injectImages ::
  "'w deps \<Rightarrow> config \<Rightarrow> (string \<times> string) list \<Rightarrow> ('w, config) op" where
  "injectImages d cfg images =
     invoke (InjectImagesCall cfg (Version d) images) RConfig
       (InjectImages d cfg (Version d) images)"

definition createSecret ::
  "'w deps \<Rightarrow> string \<Rightarrow> string \<Rightarrow> string \<Rightarrow> (string \<times> bytes) list \<Rightarrow> bool \<Rightarrow> ('w, unit) op" where
  "createSecret d ns name type dat upd =
     invoke (CreateSecretCall ns name type dat upd) (\<lambda>_. RUnit) (CreateSecret d ns name type dat upd)"

definition listDeployments :: "'w deps \<Rightarrow> string \<Rightarrow> string \<Rightarrow> ('w, Deployment list) op" where
  "listDeployments d ns selector =
     invoke (ListDeploymentsCall ns selector) RDeployments (ListDeployments d ns selector)"

definition deleteDeployment :: "'w deps \<Rightarrow> string \<Rightarrow> string \<Rightarrow> ('w, unit) op" where
  "deleteDeployment d ns name =
     invoke (DeleteDeploymentCall ns name) (\<lambda>_. RUnit) (DeleteDeployment d ns name)"

definition render ::
  "'w deps \<Rightarrow> string \<Rightarrow> string \<Rightarrow> string \<Rightarrow> config \<Rightarrow> ('w, RenderedChart) op" where
  "render d path name ns vals =
     invoke (RenderCall path name ns vals) RChart (Render d path name ns vals)"

section \<open>generateCoreAddonsChart\<close>

text \<open>The configuration maps of lines 39 to 75, each with the later assignments to it.\<close>

definition global :: "'w deps \<Rightarrow> HybridBotanist \<Rightarrow> config" where
  "global d b = [(''podNetwork'', VStr (GetPodNetwork d (Shoot b)))]"

definition calicoConfig :: "HybridBotanist \<Rightarrow> config" where
  "calicoConfig b = [(''cloudProvider'', VStr (CloudProvider (Shoot b)))]"

definition kubeDNSConfig :: "'w deps \<Rightarrow> HybridBotanist \<Rightarrow> config" where
  "kubeDNSConfig d b =
     [(''clusterDNS'', VStr (ComputeClusterIP d (GetServiceNetwork d (Shoot b)) 10)),
      (''domain'', VStr (DefaultDomain d))]"

text \<open>
  Lines 52 to 57, and lines 78 to 81: the feature gates are set only when the shoot
  has a \<^verbatim>\<open>KubeProxy\<close> section.
\<close>

definition kubeProxyConfig :: "HybridBotanist \<Rightarrow> Secret \<Rightarrow> config" where
  "kubeProxyConfig b kubeProxySecret =
     (let c = [(''kubeconfig'', VBytes (dataAt kubeProxySecret ''kubeconfig'')),
               (''podAnnotations'',
                  VMap [(''checksum/secret-kube-proxy'', VStr (checkSum b ''kube-proxy''))])]
      in case KubeProxy (Kubernetes (Spec (Info (Shoot b)))) of
           None \<Rightarrow> c
         | Some proxyConfig \<Rightarrow>
             AList.update ''featureGates''
               (VMap (map (\<lambda>(k, v). (k, VBool v)) (FeatureGates proxyConfig))) c)"

definition metricsServerConfig :: "'w deps \<Rightarrow> Secret \<Rightarrow> Secret \<Rightarrow> config" where
  "metricsServerConfig d caMetricsServerSecret metricsServerSecret =
     [(''tls'', VMap [(''caBundle'',
                       VBytes (dataAt caMetricsServerSecret (DataKeyCertificateCA d)))]),
      (''secret'', VMap [(''data'', dataValue (Data metricsServerSecret))])]"

text \<open>Lines 66 to 74.\<close>

definition vpnShootConfig :: "'w deps \<Rightarrow> HybridBotanist \<Rightarrow> Secret \<Rightarrow> config" where
  "vpnShootConfig d b vpnTLSAuthSecret =
     [(''podNetwork'', VStr (GetPodNetwork d (Shoot b))),
      (''serviceNetwork'', VStr (GetServiceNetwork d (Shoot b))),
      (''nodeNetwork'', VStr (GetNodeNetwork d (Shoot b))),
      (''tlsAuth'', VBytes (dataAt vpnTLSAuthSecret ''vpn.tlsauth'')),
      (''podAnnotations'',
         VMap [(''checksum/secret-vpn-shoot'', VStr (checkSum b ''vpn-shoot''))])]"

text \<open>
  Lines 83 to 85. The guard is the \<^verbatim>\<open>ok\<close> of the map lookup: it tells whether the key
  is there, not whether the pointer under it is nil. With the key absent the
  configuration stays as it is; with the key there, the pointer is dereferenced at
  line 84, and the result \<open>None\<close> stands for the panic on a nil pointer.
\<close>

definition setDiffieHellmanKey :: "'w deps \<Rightarrow> HybridBotanist \<Rightarrow> config \<Rightarrow> config option" where
  "setDiffieHellmanKey d b vpnShootConfig0 =
     (case Secrets b (GardenRoleOpenVPNDiffieHellman d) of
        None \<Rightarrow> Some vpnShootConfig0
      | Some None \<Rightarrow> None
      | Some (Some openvpnDiffieHellmanSecret) \<Rightarrow>
          Some (AList.update ''diffieHellmanKey''
                  (VBytes (dataAt openvpnDiffieHellmanSecret ''dh2048.pem'')) vpnShootConfig0))"

definition nodeExporterConfig :: config where
  "nodeExporterConfig = []"

text \<open>The values handed to the renderer, lines 116 to 126.\<close>

definition coreValues ::
  "'w deps \<Rightarrow> HybridBotanist \<Rightarrow> config \<Rightarrow> config \<Rightarrow> config \<Rightarrow> config \<Rightarrow> config \<Rightarrow> config \<Rightarrow> config" where
  "coreValues d b kubeDNS kubeProxy vpnShoot calico metricsServer nodeExporter =
     [(''global'', VMap (global d b)),
      (''kube-dns'', VMap kubeDNS),
      (''kube-proxy'', VMap kubeProxy),
      (''vpn-shoot'', VMap vpnShoot),
      (''calico'', VMap calico),
      (''metrics-server'', VMap metricsServer),
      (''monitoring'', VMap [(''node-exporter'', VMap nodeExporter)])]"

text \<open>
  The secrets \<^verbatim>\<open>kube-proxy\<close>, \<^verbatim>\<open>ca-metrics-server\<close>, \<^verbatim>\<open>metrics-server\<close> and
  \<^verbatim>\<open>vpn-seed-tlsauth\<close> are dereferenced while the configuration maps are built
  (lines 53, 60, 63 and 70) and the Diffie-Hellman secret, when its key is there, at
  line 84, all before any call; \<^verbatim>\<open>vpn-shoot\<close> is dereferenced at line 112, when the
  arguments of \<^verbatim>\<open>CreateSecret\<close> are evaluated.
\<close>

definition generateCoreAddonsChart :: "'w deps \<Rightarrow> HybridBotanist \<Rightarrow> ('w, RenderedChart) op" where
  "generateCoreAddonsChart d b =
     seq (deref (secretAt b ''kube-proxy'')) (\<lambda>kubeProxySecret.
     seq (deref (secretAt b ''ca-metrics-server'')) (\<lambda>caMetricsServerSecret.
     seq (deref (secretAt b ''metrics-server'')) (\<lambda>metricsServerSecret.
     seq (deref (secretAt b ''vpn-seed-tlsauth'')) (\<lambda>vpnTLSAuthSecret.
     seq (deref (setDiffieHellmanKey d b (vpnShootConfig d b vpnTLSAuthSecret))) (\<lambda>vpnShootConfig1.
     seq (injectImages d (calicoConfig b)
            [(''calico-node'', ''calico-node''), (''calico-cni'', ''calico-cni''),
             (''calico-typha'', ''calico-typha'')]) (\<lambda>calico.
     seq (injectImages d (kubeDNSConfig d b)
            [(''kube-dns'', ''kube-dns''), (''kube-dns-dnsmasq'', ''kube-dns-dnsmasq''),
             (''kube-dns-sidecar'', ''kube-dns-sidecar''),
             (''kube-dns-autoscaler'', ''cluster-proportional-autoscaler'')]) (\<lambda>kubeDNS.
     seq (injectImages d (kubeProxyConfig b kubeProxySecret)
            [(''hyperkube'', ''hyperkube'')]) (\<lambda>kubeProxy.
     seq (injectImages d (metricsServerConfig d caMetricsServerSecret metricsServerSecret)
            [(''metrics-server'', ''metrics-server'')]) (\<lambda>metricsServer.
     seq (injectImages d vpnShootConfig1
            [(''vpn-shoot'', ''vpn-shoot'')]) (\<lambda>vpnShoot.
     seq (injectImages d nodeExporterConfig
            [(''node-exporter'', ''node-exporter'')]) (\<lambda>nodeExporter.
     seq (deref (secretAt b ''vpn-shoot'')) (\<lambda>vpnShootSecret.
     seq (createSecret d NamespaceSystem ''vpn-shoot'' SecretTypeOpaque
            (Data vpnShootSecret) True) (\<lambda>_.
     render d (Join d (ChartPath d) ''shoot-core'') ''shoot-core'' NamespaceSystem
       (coreValues d b kubeDNS kubeProxy vpnShoot calico metricsServer nodeExporter))))))))))))))"

section \<open>generateOptionalAddonsChart\<close>

text \<open>Lines 161 to 182: the two conditional merges into the provider's configuration.\<close>

definition sourceRangesOverride :: "NginxIngress \<Rightarrow> config" where
  "sourceRangesOverride nginxIngress =
     [(''controller'', VMap [(''service'', VMap [(''loadBalancerSourceRanges'',
         VList (map VStr (LoadBalancerSourceRanges nginxIngress)))])])]"

definition resourceLimitsOverride :: config where
  "resourceLimitsOverride =
     [(''controller'', VMap [(''resources'', VMap [(''limits'',
         VMap [(''cpu'', VStr ''500m''), (''memory'', VStr ''1024Mi'')])])])]"

definition mergeNginxIngressConfig :: "'w deps \<Rightarrow> HybridBotanist \<Rightarrow> config \<Rightarrow> ('w, config) op" where
  "mergeNginxIngressConfig d b nginxIngressConfig =
     (if NginxIngressEnabled d (Shoot b) then
        seq (deref (Addons (Spec (Info (Shoot b))))) (\<lambda>addons.
        seq (deref (NginxIngress addons)) (\<lambda>nginxIngress.
        let merged = MergeMaps d nginxIngressConfig (sourceRangesOverride nginxIngress)
        in if IsUsedAsSeed d (Info (Shoot b))
           then ret (MergeMaps d merged resourceLimitsOverride)
           else ret merged))
      else ret nginxIngressConfig)"

text \<open>
  Lines 221 to 225: the loop over the listed deployments. A delete error that is a
  not-found error does not end the loop; any other error is returned.
\<close>

fun deleteHeapsterDeployments :: "'w deps \<Rightarrow> Deployment list \<Rightarrow> ('w, unit) op" where
  "deleteHeapsterDeployments d [] s = (Ok (), s)"
| "deleteHeapsterDeployments d (deployment # rest) s =
     (case deleteDeployment d NamespaceSystem (Name deployment) s of
        (Err err, s') \<Rightarrow>
          if \<not> IsNotFound err then (Err err, s')
          else deleteHeapsterDeployments d rest s'
      | (Ok u, s') \<Rightarrow> deleteHeapsterDeployments d rest s'
      | (Panic, s') \<Rightarrow> (Panic, s'))"

text \<open>Lines 215 to 225: list the legacy heapster deployments and delete them.\<close>

definition heapsterSelector :: string where
  "heapsterSelector = ''chart=heapster-0.1.1,origin=gardener''"

definition cleanupHeapster :: "'w deps \<Rightarrow> ('w, unit) op" where
  "cleanupHeapster d =
     seq (listDeployments d NamespaceSystem heapsterSelector) (\<lambda>heapsterDeployments.
     deleteHeapsterDeployments d heapsterDeployments)"

definition optionalValues ::
  "config \<Rightarrow> config \<Rightarrow> config \<Rightarrow> config \<Rightarrow> config \<Rightarrow> config \<Rightarrow> config \<Rightarrow> config" where
  "optionalValues clusterAutoscalerConfig helmTiller kubeLego kube2IAM kubernetesDashboard
       monocular nginxIngress =
     [(''cluster-autoscaler'', VMap clusterAutoscalerConfig),
      (''helm-tiller'', VMap helmTiller),
      (''kube-lego'', VMap kubeLego),
      (''kube2iam'', VMap kube2IAM),
      (''kubernetes-dashboard'', VMap kubernetesDashboard),
      (''monocular'', VMap monocular),
      (''nginx-ingress'', VMap nginxIngress)]"

definition nginxIngressImages :: "(string \<times> string) list" where
  "nginxIngressImages =
     [(''nginx-ingress-controller'', ''nginx-ingress-controller''),
      (''ingress-default-backend'', ''ingress-default-backend'')]"

definition generateOptionalAddonsChart :: "'w deps \<Rightarrow> HybridBotanist \<Rightarrow> ('w, RenderedChart) op" where
  "generateOptionalAddonsChart d b =
     seq (invoke GenerateClusterAutoscalerConfigCall RConfig
            (GenerateClusterAutoscalerConfig d)) (\<lambda>clusterAutoscalerConfig.
     seq (invoke GenerateHelmTillerConfigCall RConfig
            (GenerateHelmTillerConfig d)) (\<lambda>helmTillerConfig.
     seq (invoke GenerateKubeLegoConfigCall RConfig
            (GenerateKubeLegoConfig d)) (\<lambda>kubeLegoConfig.
     seq (invoke GenerateKube2IAMConfigCall RConfig
            (GenerateKube2IAMConfig d)) (\<lambda>kube2IAMConfig.
     seq (invoke GenerateKubernetesDashboardConfigCall RConfig
            (GenerateKubernetesDashboardConfig d)) (\<lambda>kubernetesDashboardConfig.
     seq (invoke GenerateMonocularConfigCall RConfig
            (GenerateMonocularConfig d)) (\<lambda>monocularConfig.
     seq (invoke GenerateNginxIngressConfigCall RConfig
            (GenerateNginxIngressConfig d)) (\<lambda>nginxIngressConfig0.
     seq (mergeNginxIngressConfig d b nginxIngressConfig0) (\<lambda>nginxIngressConfig.
     seq (injectImages d helmTillerConfig [(''helm-tiller'', ''helm-tiller'')]) (\<lambda>helmTiller.
     seq (injectImages d kubeLegoConfig [(''kube-lego'', ''kube-lego'')]) (\<lambda>kubeLego.
     seq (injectImages d kube2IAMConfig [(''kube2iam'', ''kube2iam'')]) (\<lambda>kube2IAM.
     seq (injectImages d kubernetesDashboardConfig
            [(''kubernetes-dashboard'', ''kubernetes-dashboard'')]) (\<lambda>kubernetesDashboard.
     seq (injectImages d monocularConfig
            [(''monocular-api'', ''monocular-api''), (''monocular-ui'', ''monocular-ui''),
             (''busybox'', ''busybox'')]) (\<lambda>monocular.
     seq (injectImages d nginxIngressConfig nginxIngressImages) (\<lambda>nginxIngress.
     seq (cleanupHeapster d) (\<lambda>_.
     render d (Join d (ChartPath d) ''shoot-addons'') ''addons'' NamespaceSystem
       (optionalValues clusterAutoscalerConfig helmTiller kubeLego kube2IAM
          kubernetesDashboard monocular nginxIngress))))))))))))))))"

section \<open>generateAdmissionControlsChart\<close>

definition generateAdmissionControlsChart :: "'w deps \<Rightarrow> ('w, RenderedChart) op" where
  "generateAdmissionControlsChart d =
     seq (invoke GenerateAdmissionControlConfigCall RConfig
            (GenerateAdmissionControlConfig d)) (\<lambda>config.
     render d (Join d (ChartPath d) ''shoot-admission-controls'') ''admission-controls''
       NamespaceSystem config)"

section \<open>Collaborators described by the specification\<close>

text \<open>
  Modelled from the spec: \<^verbatim>\<open>utils.MergeMaps\<close> is called at lines 162 and 171 and
  defined in a package that is not part of the sources at hand. Section 4.2 of the
  specification: nested maps are merged recursively key by key, with later sources
  overriding earlier ones at the leaf level; lists and scalars are replaced wholesale,
  never concatenated; keys of only one source are kept. The entries of the override
  come first, then the entries of the base that the override does not name.
\<close>

function MergeMaps_spec :: "config \<Rightarrow> config \<Rightarrow> config" where
  "MergeMaps_spec a b =
     map (\<lambda>(k, v). (k, case (map_of a k, v) of
                          (Some (VMap am), VMap bm) \<Rightarrow> VMap (MergeMaps_spec am bm)
                        | _ \<Rightarrow> v)) b
     @ filter (\<lambda>(k, v). map_of b k = None) a"
  by pat_completeness auto

text \<open>
  Modelled from the spec: the provider-specific implementations behind
  \<^verbatim>\<open>ShootCloudBotanist\<close> are not part of the sources at hand. Sections 4.4 and 9 of
  the specification: one variant per provider with a fixed operation table, and an
  operation that a provider does not support returns an explicit empty configuration
  rather than an error. A provider is the table of the operations it implements.
\<close>

datatype dispatcherOp =
    GenerateKube2IAMConfigOp
  | GenerateNginxIngressConfigOp
  | GenerateAdmissionControlConfigOp

type_synonym 'w provider = "dispatcherOp \<rightharpoonup> ('w, config) remote"

definition dispatch :: "'w provider \<Rightarrow> dispatcherOp \<Rightarrow> ('w, config) remote" where
  "dispatch p operation w =
     (case p operation of
        None \<Rightarrow> (Inr [], w)
      | Some generate \<Rightarrow> generate w)"

text \<open>The collaborators of a botanist whose provider-specific generators go through the table.\<close>

definition withProvider :: "'w provider \<Rightarrow> 'w deps \<Rightarrow> 'w deps" where
  "withProvider p d =
     d\<lparr>GenerateKube2IAMConfig := dispatch p GenerateKube2IAMConfigOp,
       GenerateNginxIngressConfig := dispatch p GenerateNginxIngressConfigOp,
       GenerateAdmissionControlConfig := dispatch p GenerateAdmissionControlConfigOp\<rparr>"

section \<open>Properties of runs\<close>

text \<open>
  The one error that the file does not return: a not-found error of
  \<^verbatim>\<open>DeleteDeployment\<close> (line 222).
\<close>

definition swallowed :: "event \<Rightarrow> bool" where
  "swallowed ev =
     (case ev of
        (DeleteDeploymentCall ns name, Inl e) \<Rightarrow> IsNotFound e
      | _ \<Rightarrow> False)"

definition passed :: "event \<Rightarrow> bool" where
  "passed ev = (case snd ev of Inr a \<Rightarrow> True | Inl e \<Rightarrow> swallowed ev)"

text \<open>
  A computation stops at the first error: whatever it returns, every call but the last
  one passed, and it returns an error exactly when its last call failed with that error.
\<close>

definition stopsAtFirstError :: "('w, 'a) op \<Rightarrow> bool" where
  "stopsAtFirstError m =
     (\<forall>s r s'. m s = (r, s') \<longrightarrow>
        (\<exists>evs. trace s' = trace s @ evs \<and>
           (case r of
              Err e \<Rightarrow> evs \<noteq> [] \<and> snd (last evs) = Inl e \<and> \<not> swallowed (last evs) \<and>
                       list_all passed (butlast evs)
            | Ok a \<Rightarrow> list_all passed evs
            | Panic \<Rightarrow> list_all passed evs)))"

text \<open>
  The calls of a run of \<^verbatim>\<open>generateCoreAddonsChart\<close> in which every call succeeds:
  six image injections, the creation of the secret, the rendering.
\<close>

definition coreEvents ::
  "'w deps \<Rightarrow> HybridBotanist \<Rightarrow> Secret \<Rightarrow> Secret \<Rightarrow> Secret \<Rightarrow> config \<Rightarrow> Secret \<Rightarrow>
   config \<Rightarrow> config \<Rightarrow> config \<Rightarrow> config \<Rightarrow> config \<Rightarrow> config \<Rightarrow> RenderedChart \<Rightarrow> event list" where
  "coreEvents d b kubeProxySecret caMetricsServerSecret metricsServerSecret vpnShootConfig1
       vpnShootSecret calico kubeDNS kubeProxy metricsServer vpnShoot nodeExporter chart =
     [(InjectImagesCall (calicoConfig b) (Version d)
         [(''calico-node'', ''calico-node''), (''calico-cni'', ''calico-cni''),
          (''calico-typha'', ''calico-typha'')], Inr (RConfig calico)),
      (InjectImagesCall (kubeDNSConfig d b) (Version d)
         [(''kube-dns'', ''kube-dns''), (''kube-dns-dnsmasq'', ''kube-dns-dnsmasq''),
          (''kube-dns-sidecar'', ''kube-dns-sidecar''),
          (''kube-dns-autoscaler'', ''cluster-proportional-autoscaler'')],
       Inr (RConfig kubeDNS)),
      (InjectImagesCall (kubeProxyConfig b kubeProxySecret) (Version d)
         [(''hyperkube'', ''hyperkube'')], Inr (RConfig kubeProxy)),
      (InjectImagesCall (metricsServerConfig d caMetricsServerSecret metricsServerSecret)
         (Version d) [(''metrics-server'', ''metrics-server'')],
       Inr (RConfig metricsServer)),
      (InjectImagesCall vpnShootConfig1 (Version d)
         [(''vpn-shoot'', ''vpn-shoot'')], Inr (RConfig vpnShoot)),
      (InjectImagesCall nodeExporterConfig (Version d)
         [(''node-exporter'', ''node-exporter'')], Inr (RConfig nodeExporter)),
      (CreateSecretCall NamespaceSystem ''vpn-shoot'' SecretTypeOpaque
         (Data vpnShootSecret) True, Inr RUnit),
      (RenderCall (Join d (ChartPath d) ''shoot-core'') ''shoot-core'' NamespaceSystem
         (coreValues d b kubeDNS kubeProxy vpnShoot calico metricsServer nodeExporter),
       Inr (RChart chart))]"

text \<open>
  Two more properties of a computation. It swallows nothing: none of its calls is a
  swallowed one. It does not end on a swallowed call: when it has made a call, the last
  one is not a swallowed one.
\<close>

definition swallowsNothing :: "('w, 'a) op \<Rightarrow> bool" where
  "swallowsNothing m =
     (\<forall>s r s'. m s = (r, s') \<longrightarrow>
        (\<exists>evs. trace s' = trace s @ evs \<and> list_all (\<lambda>ev. \<not> swallowed ev) evs))"

definition goesOnAfterSwallow :: "('w, 'a) op \<Rightarrow> bool" where
  "goesOnAfterSwallow m =
     (\<forall>s r s'. m s = (r, s') \<longrightarrow>
        (\<exists>evs. trace s' = trace s @ evs \<and> (evs = [] \<or> \<not> swallowed (last evs))))"

section \<open>A concrete shoot cluster\<close>

text \<open>
  A small shoot cluster and collaborators on which the functions can be run: the cluster
  holds deployments and secrets, deleting a deployment that is not there is a not-found
  error, and image injection adds an \<^verbatim>\<open>images\<close> entry.
\<close>

record cluster =
  deployments :: "Deployment list"
  secrets :: "(string \<times> (string \<times> bytes) list) list"

definition exampleDelete :: "string \<Rightarrow> string \<Rightarrow> (cluster, unit) remote" where
  "exampleDelete ns name w =
     (if name \<in> set (map Name (deployments w))
      then (Inr (), w\<lparr>deployments := filter (\<lambda>dep. Name dep \<noteq> name) (deployments w)\<rparr>)
      else (Inl (StatusError StatusReasonNotFound name), w))"

definition exampleDeps :: "cluster deps" where
  "exampleDeps =
     \<lparr>GetPodNetwork = (\<lambda>sh. ''100.96.0.0/11''),
      GetServiceNetwork = (\<lambda>sh. ''100.64.0.0/13''),
      GetNodeNetwork = (\<lambda>sh. ''10.250.0.0/16''),
      NginxIngressEnabled =
        (\<lambda>sh. case Addons (Spec (Info sh)) of
                 None \<Rightarrow> False
               | Some a \<Rightarrow> NginxIngress a \<noteq> None),
      IsUsedAsSeed = (\<lambda>i. False),
      ComputeClusterIP = (\<lambda>cidr n. ''100.64.0.10''),
      MergeMaps = MergeMaps_spec,
      Join = (\<lambda>p q. p @ ''/'' @ q),
      Version = ''1.11.0'',
      InjectImages =
        (\<lambda>c v images w.
           (Inr (AList.update ''images'' (VMap (map (\<lambda>(k, n). (k, VStr (n @ '':'' @ v))) images)) c),
            w)),
      GenerateClusterAutoscalerConfig = (\<lambda>w. (Inr [(''enabled'', VBool False)], w)),
      GenerateHelmTillerConfig = (\<lambda>w. (Inr [(''enabled'', VBool False)], w)),
      GenerateKubeLegoConfig = (\<lambda>w. (Inr [(''enabled'', VBool False)], w)),
      GenerateKube2IAMConfig = (\<lambda>w. (Inr [(''enabled'', VBool False)], w)),
      GenerateKubernetesDashboardConfig = (\<lambda>w. (Inr [(''enabled'', VBool True)], w)),
      GenerateMonocularConfig = (\<lambda>w. (Inr [(''enabled'', VBool False)], w)),
      GenerateNginxIngressConfig =
        (\<lambda>w. (Inr [(''enabled'', VBool True),
                    (''controller'', VMap [(''service'', VMap [(''type'', VStr ''LoadBalancer'')])])],
               w)),
      GenerateAdmissionControlConfig = (\<lambda>w. (Inr [], w)),
      CreateSecret =
        (\<lambda>ns name type dat upd w. (Inr (), w\<lparr>secrets := AList.update name dat (secrets w)\<rparr>)),
      ListDeployments = (\<lambda>ns selector w. (Inr (deployments w), w)),
      DeleteDeployment = exampleDelete,
      Render = (\<lambda>path name ns vals w. (Inr [name], w)),
      ChartPath = ''charts'',
      DefaultDomain = ''cluster.local'',
      DataKeyCertificateCA = ''ca.crt'',
      GardenRoleOpenVPNDiffieHellman = ''openvpn-diffie-hellman-key''\<rparr>"

definition exampleShoot :: Shoot where
  "exampleShoot =
     \<lparr>Info = \<lparr>Spec = \<lparr>Kubernetes = \<lparr>KubeProxy = None\<rparr>, Addons = None\<rparr>\<rparr>,
      CloudProvider = ''alicloud''\<rparr>"

definition exampleSecrets :: "string \<rightharpoonup> Secret option" where
  "exampleSecrets =
     [''kube-proxy'' \<mapsto> Some \<lparr>Data = [(''kubeconfig'', ''kc'')]\<rparr>,
      ''vpn-shoot'' \<mapsto> Some \<lparr>Data = [(''tls.key'', ''key'')]\<rparr>,
      ''vpn-seed-tlsauth'' \<mapsto> Some \<lparr>Data = [(''vpn.tlsauth'', ''psk'')]\<rparr>,
      ''ca-metrics-server'' \<mapsto> Some \<lparr>Data = [(''ca.crt'', ''ca'')]\<rparr>,
      ''metrics-server'' \<mapsto> Some \<lparr>Data = [(''tls.crt'', ''crt'')]\<rparr>]"

definition exampleBotanist :: HybridBotanist where
  "exampleBotanist =
     \<lparr>Secrets = exampleSecrets,
      CheckSums = [''kube-proxy'' \<mapsto> ''c1'', ''vpn-shoot'' \<mapsto> ''c2''],
      Shoot = exampleShoot\<rparr>"

definition exampleIngressBotanist :: HybridBotanist where
  "exampleIngressBotanist =
     exampleBotanist\<lparr>Shoot :=
       \<lparr>Info = \<lparr>Spec = \<lparr>Kubernetes = \<lparr>KubeProxy = None\<rparr>,
                        Addons = Some \<lparr>NginxIngress =
                          Some \<lparr>LoadBalancerSourceRanges = [''10.0.0.0/8'']\<rparr>\<rparr>\<rparr>\<rparr>,
        CloudProvider = ''alicloud''\<rparr>\<rparr>"

definition heapster :: Deployment where
  "heapster = \<lparr>Name = ''heapster''\<rparr>"

definition start :: "cluster \<Rightarrow> cluster state" where
  "start w = \<lparr>trace = [], world = w\<rparr>"

definition emptyCluster :: cluster where
  "emptyCluster = \<lparr>deployments = [], secrets = []\<rparr>"


text \<open>Collaborators that fail, each in one place.\<close>

definition brokenTillerDeps :: "cluster deps" where
  "brokenTillerDeps =
     exampleDeps\<lparr>GenerateHelmTillerConfig := (\<lambda>w. (Inl (OtherError ''boom''), w))\<rparr>"

definition brokenImagesDeps :: "cluster deps" where
  "brokenImagesDeps =
     exampleDeps\<lparr>InjectImages := (\<lambda>c v images w. (Inl (OtherError ''boom''), w))\<rparr>"

definition brokenSecretDeps :: "cluster deps" where
  "brokenSecretDeps =
     exampleDeps\<lparr>CreateSecret :=
       (\<lambda>ns name type dat upd w. (Inl (StatusError StatusReasonForbidden name), w))\<rparr>"


text \<open>A listing that is stale: the listed deployment is gone when it is deleted.\<close>

definition staleListingDeps :: "cluster deps" where
  "staleListingDeps =
     exampleDeps\<lparr>ListDeployments := (\<lambda>ns selector w. (Inr [heapster], w))\<rparr>"

text \<open>Collaborators for which the shoot is used as a seed.\<close>

definition seedDeps :: "cluster deps" where
  "seedDeps = exampleDeps\<lparr>IsUsedAsSeed := (\<lambda>i. True)\<rparr>"

text \<open>Bundles in which one secret, and its entry of the Checksum Map, has changed.\<close>

definition rotatedTLSAuthBotanist :: HybridBotanist where
  "rotatedTLSAuthBotanist =
     exampleBotanist\<lparr>Secrets := exampleSecrets(''vpn-seed-tlsauth'' \<mapsto> Some \<lparr>Data = [(''vpn.tlsauth'', ''new'')]\<rparr>),
                     CheckSums := (CheckSums exampleBotanist)(''vpn-seed-tlsauth'' \<mapsto> ''c3'')\<rparr>"

definition rotatedKubeProxyBotanist :: HybridBotanist where
  "rotatedKubeProxyBotanist =
     exampleBotanist\<lparr>Secrets := (Secrets exampleBotanist)(''kube-proxy'' \<mapsto> Some \<lparr>Data = [(''kubeconfig'', ''kc2'')]\<rparr>),
                     CheckSums := (CheckSums exampleBotanist)(''kube-proxy'' \<mapsto> ''c9'')\<rparr>"

definition rotatedVPNShootBotanist :: HybridBotanist where
  "rotatedVPNShootBotanist =
     exampleBotanist\<lparr>Secrets := (Secrets exampleBotanist)(''vpn-shoot'' \<mapsto> Some \<lparr>Data = [(''tls.key'', ''key2'')]\<rparr>),
                     CheckSums := (CheckSums exampleBotanist)(''vpn-shoot'' \<mapsto> ''c8'')\<rparr>"

text \<open>
  A bundle in which only the content of the kube-proxy secret has changed, and bundles
  with a key that holds the nil pointer or with a secret missing.
\<close>

definition contentOnlyBotanist :: HybridBotanist where
  "contentOnlyBotanist =
     exampleBotanist\<lparr>Secrets := exampleSecrets(''kube-proxy'' \<mapsto> Some \<lparr>Data = [(''kubeconfig'', ''kc2'')]\<rparr>)\<rparr>"

definition nilDiffieHellmanBotanist :: HybridBotanist where
  "nilDiffieHellmanBotanist =
     exampleBotanist\<lparr>Secrets := exampleSecrets(''openvpn-diffie-hellman-key'' \<mapsto> None)\<rparr>"

definition diffieHellmanBotanist :: HybridBotanist where
  "diffieHellmanBotanist =
     exampleBotanist\<lparr>Secrets :=
       exampleSecrets(''openvpn-diffie-hellman-key'' \<mapsto> Some \<lparr>Data = [(''dh2048.pem'', ''dh'')]\<rparr>)\<rparr>"

definition noKubeProxyBotanist :: HybridBotanist where
  "noKubeProxyBotanist = exampleBotanist\<lparr>Secrets := exampleSecrets(''kube-proxy'' := None)\<rparr>"

definition noVPNShootBotanist :: HybridBotanist where
  "noVPNShootBotanist = exampleBotanist\<lparr>Secrets := exampleSecrets(''vpn-shoot'' := None)\<rparr>"

text \<open>A shoot with the nginx-ingress addon and no source ranges.\<close>

definition openIngressBotanist :: HybridBotanist where
  "openIngressBotanist =
     exampleBotanist\<lparr>Shoot :=
       \<lparr>Info = \<lparr>Spec = \<lparr>Kubernetes = \<lparr>KubeProxy = None\<rparr>,
                        Addons = Some \<lparr>NginxIngress =
                          Some \<lparr>LoadBalancerSourceRanges = []\<rparr>\<rparr>\<rparr>\<rparr>,
        CloudProvider = ''alicloud''\<rparr>\<rparr>"

text \<open>
  A provider that implements the nginx-ingress generator, has a failing kube2iam
  generator, and does not support admission-control configuration.
\<close>

definition exampleProvider :: "cluster provider" where
  "exampleProvider =
     [GenerateNginxIngressConfigOp \<mapsto> GenerateNginxIngressConfig exampleDeps,
      GenerateKube2IAMConfigOp \<mapsto> (\<lambda>w. (Inl (OtherError ''no role''), w))]"

text \<open>Two configuration maps to merge.\<close>

definition exampleBase :: config where
  "exampleBase =
     [(''enabled'', VBool True),
      (''controller'', VMap [(''service'', VMap [(''type'', VStr ''LoadBalancer'')])]),
      (''ranges'', VList [VStr ''a''])]"

definition exampleOverride :: config where
  "exampleOverride =
     [(''controller'', VMap [(''service'', VMap [(''loadBalancerSourceRanges'',
         VList [VStr ''10.0.0.0/8''])])]),
      (''ranges'', VList [VStr ''b'']),
      (''extra'', VStr ''x'')]"

section \<open>Running the model\<close>

lemma size_map_entry:
  "(k, v) \<in> set m \<Longrightarrow> size v < Suc (size_list (size_prod (\<lambda>_. 0) size) m)"
  by (induction m) auto

termination MergeMaps_spec
  apply (relation "measure (\<lambda>(a, b). size_list (size_prod (\<lambda>_. 0) size) b)")
   apply simp
  apply (auto dest!: size_map_entry)
  done

declare MergeMaps_spec.simps [simp del]

text \<open>What a sequence, a dereference and a call return, case by case.\<close>

lemma seq_Ok_iff:
  "seq m f s = (Ok x, s') \<longleftrightarrow> (\<exists>a s1. m s = (Ok a, s1) \<and> f a s1 = (Ok x, s'))"
  by (auto simp: seq_def split: prod.splits result.splits)

lemma seq_Err_iff:
  "seq m f s = (Err e, s') \<longleftrightarrow>
     m s = (Err e, s') \<or> (\<exists>a s1. m s = (Ok a, s1) \<and> f a s1 = (Err e, s'))"
  by (auto simp: seq_def split: prod.splits result.splits)

lemma seq_Panic_iff:
  "seq m f s = (Panic, s') \<longleftrightarrow>
     m s = (Panic, s') \<or> (\<exists>a s1. m s = (Ok a, s1) \<and> f a s1 = (Panic, s'))"
  by (auto simp: seq_def split: prod.splits result.splits)

lemma deref_Ok_iff: "deref p s = (Ok x, s') \<longleftrightarrow> p = Some x \<and> s' = s"
  by (auto simp: deref_def split: option.splits)

lemma deref_Err_iff: "deref p s = (Err e, s') \<longleftrightarrow> False"
  by (auto simp: deref_def split: option.splits)

lemma deref_Panic_iff: "deref p s = (Panic, s') \<longleftrightarrow> p = None \<and> s' = s"
  by (auto simp: deref_def split: option.splits)

lemma invoke_Ok_iff:
  "invoke c wrap f s = (Ok a, s') \<longleftrightarrow>
     (\<exists>w. f (world s) = (Inr a, w) \<and> s' = \<lparr>trace = trace s @ [(c, Inr (wrap a))], world = w\<rparr>)"
  by (auto simp: invoke_def split: prod.splits sum.splits)

lemma invoke_Err_iff:
  "invoke c wrap f s = (Err e, s') \<longleftrightarrow>
     (\<exists>w. f (world s) = (Inl e, w) \<and> s' = \<lparr>trace = trace s @ [(c, Inl e)], world = w\<rparr>)"
  by (auto simp: invoke_def split: prod.splits sum.splits)

lemma invoke_Panic_iff: "invoke c wrap f s = (Panic, s') \<longleftrightarrow> False"
  by (auto simp: invoke_def split: prod.splits sum.splits)

lemma ret_iff: "ret a s = (r, s') \<longleftrightarrow> r = Ok a \<and> s' = s"
  by (auto simp: ret_def)

lemmas run_iffs = seq_Ok_iff seq_Err_iff seq_Panic_iff deref_Ok_iff deref_Err_iff deref_Panic_iff
  invoke_Ok_iff invoke_Err_iff invoke_Panic_iff ret_iff

lemmas call_defs = injectImages_def createSecret_def render_def listDeployments_def deleteDeployment_def

lemma stops_ret: "stopsAtFirstError (ret a)"
  by (simp add: stopsAtFirstError_def ret_def)

lemma stops_deref: "stopsAtFirstError (deref p)"
  by (auto simp: stopsAtFirstError_def deref_def split: option.splits)

lemma not_swallowed:
  "(\<And>ns name. c \<noteq> DeleteDeploymentCall ns name) \<Longrightarrow> \<not> swallowed (c, out)"
  by (cases c) (auto simp: swallowed_def)

lemma stops_invoke:
  assumes "\<And>ns name. c \<noteq> DeleteDeploymentCall ns name"
  shows "stopsAtFirstError (invoke c wrap f)"
  using not_swallowed [OF assms]
  by (auto simp: stopsAtFirstError_def invoke_def passed_def split: prod.splits sum.splits)

lemma stops_seq:
  assumes m: "stopsAtFirstError m" and f: "\<And>a. stopsAtFirstError (f a)"
  shows "stopsAtFirstError (seq m f)"
  unfolding stopsAtFirstError_def
proof (intro allI impI)
  fix s r s'
  assume run: "seq m f s = (r, s')"
  obtain r1 s1 where m1: "m s = (r1, s1)" by (cases "m s")
  from m m1 obtain evs1 where t1: "trace s1 = trace s @ evs1"
    and c1: "case r1 of Err e \<Rightarrow> evs1 \<noteq> [] \<and> snd (last evs1) = Inl e \<and> \<not> swallowed (last evs1) \<and>
                       list_all passed (butlast evs1)
            | Ok a \<Rightarrow> list_all passed evs1
            | Panic \<Rightarrow> list_all passed evs1"
    unfolding stopsAtFirstError_def by blast
  show "\<exists>evs. trace s' = trace s @ evs \<and>
           (case r of
              Err e \<Rightarrow> evs \<noteq> [] \<and> snd (last evs) = Inl e \<and> \<not> swallowed (last evs) \<and>
                       list_all passed (butlast evs)
            | Ok a \<Rightarrow> list_all passed evs
            | Panic \<Rightarrow> list_all passed evs)"
  proof (cases r1)
    case Panic
    with run m1 t1 c1 show ?thesis by (auto simp: seq_def)
  next
    case (Err e)
    with run m1 t1 c1 show ?thesis by (auto simp: seq_def)
  next
    case (Ok a)
    with run m1 have run2: "f a s1 = (r, s')" by (simp add: seq_def)
    from f [of a] run2 obtain evs2 where t2: "trace s' = trace s1 @ evs2"
      and c2: "case r of Err e \<Rightarrow> evs2 \<noteq> [] \<and> snd (last evs2) = Inl e \<and> \<not> swallowed (last evs2) \<and>
                       list_all passed (butlast evs2)
            | Ok a \<Rightarrow> list_all passed evs2
            | Panic \<Rightarrow> list_all passed evs2"
      unfolding stopsAtFirstError_def by blast
    from Ok c1 have p1: "list_all passed evs1" by simp
    have "trace s' = trace s @ (evs1 @ evs2)" using t1 t2 by simp
    moreover have "case r of Err e \<Rightarrow> evs1 @ evs2 \<noteq> [] \<and> snd (last (evs1 @ evs2)) = Inl e \<and>
                       \<not> swallowed (last (evs1 @ evs2)) \<and> list_all passed (butlast (evs1 @ evs2))
            | Ok a \<Rightarrow> list_all passed (evs1 @ evs2)
            | Panic \<Rightarrow> list_all passed (evs1 @ evs2)"
      using c2 p1 by (cases r) (auto simp: butlast_append)
    ultimately show ?thesis by blast
  qed
qed

lemma stops_deleteHeapsterDeployments: "stopsAtFirstError (deleteHeapsterDeployments d items)"
proof (induction items)
  case Nil
  show ?case by (simp add: stopsAtFirstError_def)
next
  case (Cons dep rest)
  show ?case
    unfolding stopsAtFirstError_def
  proof (intro allI impI)
    fix s r s'
    assume run: "deleteHeapsterDeployments d (dep # rest) s = (r, s')"
    let ?c = "DeleteDeploymentCall NamespaceSystem (Name dep)"
    obtain out w where f: "DeleteDeployment d NamespaceSystem (Name dep) (world s) = (out, w)"
      by (cases "DeleteDeployment d NamespaceSystem (Name dep) (world s)")
    let ?P = "\<lambda>evs. (case r of
              Err e \<Rightarrow> evs \<noteq> [] \<and> snd (last evs) = Inl e \<and> \<not> swallowed (last evs) \<and>
                       list_all passed (butlast evs)
            | Ok a \<Rightarrow> list_all passed evs
            | Panic \<Rightarrow> list_all passed evs)"
    have continue: "\<exists>evs. trace s' = trace s @ evs \<and> ?P evs"
      if ev: "passed (?c, o1)" and rest: "deleteHeapsterDeployments d rest \<lparr>trace = trace s @ [(?c, o1)], world = w\<rparr> = (r, s')"
      for o1
    proof -
      from Cons.IH rest obtain evs2 where t2: "trace s' = (trace s @ [(?c, o1)]) @ evs2" and c2: "?P evs2"
        unfolding stopsAtFirstError_def by fastforce
      have "trace s' = trace s @ ((?c, o1) # evs2)" using t2 by simp
      moreover have "?P ((?c, o1) # evs2)" using c2 ev by (cases r) (auto simp: butlast_append)
      ultimately show ?thesis by blast
    qed
    show "\<exists>evs. trace s' = trace s @ evs \<and> ?P evs"
    proof (cases out)
      case (Inr u)
      with run f have "deleteHeapsterDeployments d rest \<lparr>trace = trace s @ [(?c, Inr RUnit)], world = w\<rparr> = (r, s')"
        by (simp add: deleteDeployment_def invoke_def)
      then show ?thesis by (intro continue) (simp_all add: passed_def)
    next
      case (Inl e)
      show ?thesis
      proof (cases "IsNotFound e")
        case True
        with Inl run f have "deleteHeapsterDeployments d rest \<lparr>trace = trace s @ [(?c, Inl e)], world = w\<rparr> = (r, s')"
          by (simp add: deleteDeployment_def invoke_def)
        then show ?thesis using True by (intro continue) (simp_all add: passed_def swallowed_def)
      next
        case False
        with Inl run f have "r = Err e" "s' = \<lparr>trace = trace s @ [(?c, Inl e)], world = w\<rparr>"
          by (simp_all add: deleteDeployment_def invoke_def)
        then show ?thesis using False by (auto simp: swallowed_def)
      qed
    qed
  qed
qed

lemma stops_generateCoreAddonsChart: "stopsAtFirstError (generateCoreAddonsChart d b)"
  unfolding generateCoreAddonsChart_def call_defs
  by (intro stops_seq stops_deref stops_invoke) simp_all

lemma stops_mergeNginxIngressConfig: "stopsAtFirstError (mergeNginxIngressConfig d b c)"
  unfolding mergeNginxIngressConfig_def Let_def
  by (auto intro!: stops_seq stops_deref stops_ret)

lemma stops_cleanupHeapster: "stopsAtFirstError (cleanupHeapster d)"
  unfolding cleanupHeapster_def call_defs
  by (intro stops_seq stops_invoke stops_deleteHeapsterDeployments) simp_all

lemma stops_generateOptionalAddonsChart: "stopsAtFirstError (generateOptionalAddonsChart d b)"
  unfolding generateOptionalAddonsChart_def call_defs
  by (intro stops_seq stops_invoke stops_mergeNginxIngressConfig stops_cleanupHeapster) simp_all

lemma stops_generateAdmissionControlsChart: "stopsAtFirstError (generateAdmissionControlsChart d)"
  unfolding generateAdmissionControlsChart_def call_defs
  by (intro stops_seq stops_invoke) simp_all

lemma failed_call_is_last:
  assumes st: "stopsAtFirstError m" and run: "m s = (r, s')" and t: "trace s' = trace s @ evs"
    and i: "i < length evs" and ev: "evs ! i = (c, Inl e)" and ns: "\<not> swallowed (c, Inl e)"
  shows "r = Err e \<and> Suc i = length evs"
proof -
  from st run obtain evs' where t': "trace s' = trace s @ evs'"
    and c: "case r of
              Err e \<Rightarrow> evs' \<noteq> [] \<and> snd (last evs') = Inl e \<and> \<not> swallowed (last evs') \<and>
                       list_all passed (butlast evs')
            | Ok a \<Rightarrow> list_all passed evs'
            | Panic \<Rightarrow> list_all passed evs'"
    unfolding stopsAtFirstError_def by blast
  from t t' have same: "evs' = evs" by simp
  have np: "\<not> passed (evs ! i)" using ev ns by (simp add: passed_def)
  have not_all: "\<not> list_all passed evs"
    using np i by (auto simp: list_all_length)
  with c same obtain e' where r: "r = Err e'" and ne: "evs \<noteq> []" and l: "snd (last evs) = Inl e'"
    and bl: "list_all passed (butlast evs)"
    by (cases r) auto
  have "\<not> i < length (butlast evs)"
  proof
    assume "i < length (butlast evs)"
    with bl have "passed (butlast evs ! i)" by (simp add: list_all_length)
    then show False using np \<open>i < length (butlast evs)\<close> by (simp add: nth_butlast)
  qed
  with i have last: "Suc i = length evs" by simp
  then have "i = length evs - 1" by arith
  with ne have "last evs = evs ! i" by (simp add: last_conv_nth)
  with l ev have "e' = e" by simp
  with r last show ?thesis by simp
qed

lemma failed_event_is_last:
  assumes st: "stopsAtFirstError m" and run: "m s = (r, s')" and t: "trace s' = trace s @ evs"
    and ev: "(c, Inl e) \<in> set evs" and ns: "\<not> swallowed (c, Inl e)"
  shows "r = Err e \<and> last evs = (c, Inl e)"
proof -
  from ev obtain i where i: "i < length evs" and nth: "evs ! i = (c, Inl e)"
    by (auto simp: in_set_conv_nth)
  from failed_call_is_last [OF st run t i nth ns] have r: "r = Err e" and l: "Suc i = length evs"
    by simp_all
  from l have "i = length evs - 1" and "evs \<noteq> []" by auto
  then have "last evs = evs ! i" by (simp add: last_conv_nth)
  with nth r show ?thesis by simp
qed

section \<open>Runs, call by call\<close>

text \<open>
  The loop deletes the listed deployments in order, up to the first error it returns.
\<close>

lemma deleteHeapsterDeployments_trace:
  "deleteHeapsterDeployments d items s = (r, s') \<Longrightarrow>
   \<exists>dels. trace s' = trace s @ dels \<and>
     map fst dels =
       map (\<lambda>dep. DeleteDeploymentCall NamespaceSystem (Name dep)) (take (length dels) items) \<and>
     (case r of
        Ok u \<Rightarrow> length dels = length items \<and>
                 list_all (\<lambda>ev. snd ev = Inr RUnit \<or> (\<exists>e. snd ev = Inl e \<and> IsNotFound e)) dels
      | Err e \<Rightarrow> dels \<noteq> [] \<and> snd (last dels) = Inl e \<and> \<not> IsNotFound e
      | Panic \<Rightarrow> False)"
proof (induction items arbitrary: s)
  case Nil
  then show ?case by auto
next
  case (Cons dep rest)
  let ?c = "DeleteDeploymentCall NamespaceSystem (Name dep)"
  let ?good = "\<lambda>ev :: event. snd ev = Inr RUnit \<or> (\<exists>e. snd ev = Inl e \<and> IsNotFound e)"
  let ?P = "\<lambda>items dels. map fst dels =
       map (\<lambda>dep. DeleteDeploymentCall NamespaceSystem (Name dep)) (take (length dels) items) \<and>
     (case r of
        Ok u \<Rightarrow> length dels = length items \<and> list_all ?good dels
      | Err e \<Rightarrow> dels \<noteq> [] \<and> snd (last dels) = Inl e \<and> \<not> IsNotFound e
      | Panic \<Rightarrow> False)"
  obtain out w where f: "DeleteDeployment d NamespaceSystem (Name dep) (world s) = (out, w)"
    by (cases "DeleteDeployment d NamespaceSystem (Name dep) (world s)")
  have continue: "\<exists>dels. trace s' = trace s @ dels \<and> ?P (dep # rest) dels"
    if ev: "?good (?c, o1)"
      and rest: "deleteHeapsterDeployments d rest \<lparr>trace = trace s @ [(?c, o1)], world = w\<rparr> = (r, s')"
    for o1
  proof -
    from Cons.IH [OF rest] obtain dels where t: "trace s' = (trace s @ [(?c, o1)]) @ dels"
      and p: "?P rest dels"
      by auto
    have "trace s' = trace s @ ((?c, o1) # dels)" using t by simp
    moreover have "?P (dep # rest) ((?c, o1) # dels)"
      using p ev by (cases r) auto
    ultimately show ?thesis by blast
  qed
  show ?case
  proof (cases out)
    case (Inr u)
    with Cons.prems f
    have "deleteHeapsterDeployments d rest \<lparr>trace = trace s @ [(?c, Inr RUnit)], world = w\<rparr> = (r, s')"
      by (simp add: deleteDeployment_def invoke_def)
    then show ?thesis by (intro continue) simp_all
  next
    case (Inl e)
    show ?thesis
    proof (cases "IsNotFound e")
      case True
      with Inl Cons.prems f
      have "deleteHeapsterDeployments d rest \<lparr>trace = trace s @ [(?c, Inl e)], world = w\<rparr> = (r, s')"
        by (simp add: deleteDeployment_def invoke_def)
      then show ?thesis using True by (intro continue) simp_all
    next
      case False
      with Inl Cons.prems f
      have "r = Err e" "s' = \<lparr>trace = trace s @ [(?c, Inl e)], world = w\<rparr>"
        by (simp_all add: deleteDeployment_def invoke_def)
      then have "trace s' = trace s @ [(?c, Inl e)]" "?P (dep # rest) [(?c, Inl e)]"
        using False by simp_all
      then show ?thesis by blast
    qed
  qed
qed

text \<open>
  Symbolic execution of a run of \<^verbatim>\<open>generateOptionalAddonsChart\<close>: what the cleanup
  calls, and what a sequence that starts with a call, the cleanup or the merge does.
\<close>

lemma cleanupHeapster_calls:
  assumes "cleanupHeapster d s = (r, s')"
  shows "r \<noteq> Panic \<and>
         (\<exists>evs. trace s' = trace s @ evs \<and>
           (\<forall>c out. (c, out) \<in> set evs \<longrightarrow>
              (\<exists>ns sel. c = ListDeploymentsCall ns sel) \<or> (\<exists>ns n. c = DeleteDeploymentCall ns n)))"
proof -
  let ?l = "ListDeploymentsCall NamespaceSystem heapsterSelector"
  obtain res w where f: "ListDeployments d NamespaceSystem heapsterSelector (world s) = (res, w)"
    by (cases "ListDeployments d NamespaceSystem heapsterSelector (world s)")
  show ?thesis
  proof (cases res)
    case (Inl e)
    with assms f have "trace s' = trace s @ [(?l, Inl e)]" "r = Err e"
      by (auto simp: cleanupHeapster_def listDeployments_def seq_def invoke_def)
    then show ?thesis by auto
  next
    case (Inr items)
    with assms f have
      "deleteHeapsterDeployments d items
         \<lparr>trace = trace s @ [(?l, Inr (RDeployments items))], world = w\<rparr> = (r, s')"
      by (simp add: cleanupHeapster_def listDeployments_def seq_def invoke_def)
    from deleteHeapsterDeployments_trace [OF this] obtain dels
      where t: "trace s' = (trace s @ [(?l, Inr (RDeployments items))]) @ dels"
        and c: "map fst dels =
                  map (\<lambda>dep. DeleteDeploymentCall NamespaceSystem (Name dep))
                    (take (length dels) items)"
        and np: "r \<noteq> Panic"
      by (cases r) auto
    have "\<exists>ns n. c' = DeleteDeploymentCall ns n" if "(c', out) \<in> set dels" for c' out
    proof -
      from that have "c' \<in> set (map fst dels)" by force
      with c show ?thesis by auto
    qed
    moreover have "trace s' = trace s @ ((?l, Inr (RDeployments items)) # dels)" using t by simp
    ultimately have "\<exists>evs. trace s' = trace s @ evs \<and>
           (\<forall>c out. (c, out) \<in> set evs \<longrightarrow>
              (\<exists>ns sel. c = ListDeploymentsCall ns sel) \<or> (\<exists>ns n. c = DeleteDeploymentCall ns n))"
      by (intro exI [of _ "(?l, Inr (RDeployments items)) # dels"]) auto
    with np show ?thesis by simp
  qed
qed

lemma cleanupHeapster_no_injection:
  assumes "cleanupHeapster d s = (r, s')"
  shows "r \<noteq> Panic \<and>
         (\<exists>evs. trace s' = trace s @ evs \<and>
           (\<forall>c v images out. (InjectImagesCall c v images, out) \<notin> set evs) \<and>
           (\<forall>out. (GenerateNginxIngressConfigCall, out) \<notin> set evs))"
  using cleanupHeapster_calls [OF assms] by fastforce

lemma seq_invokeE:
  assumes "seq (invoke c wrap f) k s = (r, s')"
  obtains (fail) e w where "f (world s) = (Inl e, w)" and "r = Err e"
      and "s' = \<lparr>trace = trace s @ [(c, Inl e)], world = w\<rparr>"
    | (continue) a w where "f (world s) = (Inr a, w)"
      and "k a \<lparr>trace = trace s @ [(c, Inr (wrap a))], world = w\<rparr> = (r, s')"
  using assms by (auto simp: seq_def invoke_def split: prod.splits sum.splits)

lemma invokeE:
  assumes "invoke c wrap f s = (r, s')"
  obtains out where "trace s' = trace s @ [(c, out)]"
  using assms by (auto simp: invoke_def split: prod.splits sum.splits)

lemma seq_cleanupHeapsterE:
  assumes "seq (cleanupHeapster d) k s = (r, s')"
  obtains (stop) evs where "trace s' = trace s @ evs"
      and "\<forall>c v images out. (InjectImagesCall c v images, out) \<notin> set evs"
      and "\<forall>out. (GenerateNginxIngressConfigCall, out) \<notin> set evs"
    | (continue) evs s1 where "trace s1 = trace s @ evs"
      and "\<forall>c v images out. (InjectImagesCall c v images, out) \<notin> set evs"
      and "\<forall>out. (GenerateNginxIngressConfigCall, out) \<notin> set evs"
      and "k () s1 = (r, s')"
proof -
  obtain r1 s1 where c: "cleanupHeapster d s = (r1, s1)" by (cases "cleanupHeapster d s")
  from cleanupHeapster_no_injection [OF c] obtain evs where np: "r1 \<noteq> Panic"
    and e: "trace s1 = trace s @ evs"
      "\<forall>c v images out. (InjectImagesCall c v images, out) \<notin> set evs"
      "\<forall>out. (GenerateNginxIngressConfigCall, out) \<notin> set evs"
    by blast
  show thesis
  proof (cases r1)
    case Panic
    with np show ?thesis by simp
  next
    case (Err e1)
    with assms c have "s' = s1" by (simp add: seq_def)
    with e show ?thesis by (intro stop) simp_all
  next
    case (Ok u)
    with assms c have "k () s1 = (r, s')" by (simp add: seq_def)
    with e show ?thesis by (intro continue) simp_all
  qed
qed

lemma seq_mergeNginxIngressConfigE:
  assumes "seq (mergeNginxIngressConfig d b base) k s = (r, s')"
  obtains (panic) "s' = s"
    | (continue) cfg where "mergeNginxIngressConfig d b base s = (Ok cfg, s)" and "k cfg s = (r, s')"
proof -
  obtain r1 s1 where m: "mergeNginxIngressConfig d b base s = (r1, s1)"
    by (cases "mergeNginxIngressConfig d b base s")
  then have same: "s1 = s" and ne: "\<forall>e. r1 \<noteq> Err e"
    by (auto simp: mergeNginxIngressConfig_def seq_def deref_def ret_def Let_def
        split: if_splits option.splits)
  show thesis
  proof (cases r1)
    case Panic
    with assms m same show ?thesis by (intro panic) (simp add: seq_def)
  next
    case (Err e)
    with ne show ?thesis by simp
  next
    case (Ok cfg)
    with assms m same show ?thesis by (intro continue [of cfg]) (simp_all add: seq_def)
  qed
qed

lemma mergeNginxIngressConfig_Ok:
  assumes "mergeNginxIngressConfig d b base s = (Ok cfg, s')"
  shows "(\<not> NginxIngressEnabled d (Shoot b) \<longrightarrow> cfg = base) \<and>
         (NginxIngressEnabled d (Shoot b) \<longrightarrow>
            (\<exists>addons nginx.
               Addons (Spec (Info (Shoot b))) = Some addons \<and> NginxIngress addons = Some nginx \<and>
               cfg = (if IsUsedAsSeed d (Info (Shoot b))
                      then MergeMaps d (MergeMaps d base (sourceRangesOverride nginx))
                             resourceLimitsOverride
                      else MergeMaps d base (sourceRangesOverride nginx))))"
  using assms
  by (auto simp: mergeNginxIngressConfig_def seq_def deref_def ret_def Let_def
      split: if_splits option.splits)

text \<open>
  Calls that are not swallowed, and what comes after one that is.
\<close>

lemma swallowsNothing_ret: "swallowsNothing (ret a)"
  by (simp add: swallowsNothing_def ret_def)

lemma swallowsNothing_deref: "swallowsNothing (deref p)"
  by (auto simp: swallowsNothing_def deref_def split: option.splits)

lemma swallowsNothing_invoke:
  assumes "\<And>ns name. c \<noteq> DeleteDeploymentCall ns name"
  shows "swallowsNothing (invoke c wrap f)"
  using not_swallowed [OF assms]
  by (auto simp: swallowsNothing_def invoke_def split: prod.splits sum.splits)

lemma swallowsNothing_seq:
  assumes m: "swallowsNothing m" and f: "\<And>a. swallowsNothing (f a)"
  shows "swallowsNothing (seq m f)"
  unfolding swallowsNothing_def
proof (intro allI impI)
  fix s r s'
  assume run: "seq m f s = (r, s')"
  obtain r1 s1 where m1: "m s = (r1, s1)" by (cases "m s")
  from m m1 obtain evs1 where t1: "trace s1 = trace s @ evs1"
    and c1: "list_all (\<lambda>ev. \<not> swallowed ev) evs1"
    unfolding swallowsNothing_def by blast
  show "\<exists>evs. trace s' = trace s @ evs \<and> list_all (\<lambda>ev. \<not> swallowed ev) evs"
  proof (cases r1)
    case Panic
    with run m1 t1 c1 show ?thesis by (auto simp: seq_def)
  next
    case (Err e)
    with run m1 t1 c1 show ?thesis by (auto simp: seq_def)
  next
    case (Ok a)
    with run m1 have "f a s1 = (r, s')" by (simp add: seq_def)
    with f [of a] obtain evs2 where "trace s' = trace s1 @ evs2"
      and "list_all (\<lambda>ev. \<not> swallowed ev) evs2"
      unfolding swallowsNothing_def by blast
    with t1 c1 have "trace s' = trace s @ (evs1 @ evs2)"
      and "list_all (\<lambda>ev. \<not> swallowed ev) (evs1 @ evs2)"
      by simp_all
    then show ?thesis by blast
  qed
qed

lemma swallowsNothing_mergeNginxIngressConfig: "swallowsNothing (mergeNginxIngressConfig d b c)"
  unfolding mergeNginxIngressConfig_def Let_def
  by (auto intro!: swallowsNothing_seq swallowsNothing_deref swallowsNothing_ret)

lemma goesOn_if_swallowsNothing:
  assumes "swallowsNothing m"
  shows "goesOnAfterSwallow m"
  unfolding goesOnAfterSwallow_def
proof (intro allI impI)
  fix s r s'
  assume "m s = (r, s')"
  with assms obtain evs where t: "trace s' = trace s @ evs"
    and c: "list_all (\<lambda>ev. \<not> swallowed ev) evs"
    unfolding swallowsNothing_def by blast
  have "evs = [] \<or> \<not> swallowed (last evs)"
    using c by (cases evs rule: rev_cases) simp_all
  with t show "\<exists>evs. trace s' = trace s @ evs \<and> (evs = [] \<or> \<not> swallowed (last evs))"
    by blast
qed

lemma goesOn_seq:
  assumes m: "swallowsNothing m" and f: "\<And>a. goesOnAfterSwallow (f a)"
  shows "goesOnAfterSwallow (seq m f)"
  unfolding goesOnAfterSwallow_def
proof (intro allI impI)
  fix s r s'
  assume run: "seq m f s = (r, s')"
  obtain r1 s1 where m1: "m s = (r1, s1)" by (cases "m s")
  from m m1 obtain evs1 where t1: "trace s1 = trace s @ evs1"
    and c1: "list_all (\<lambda>ev. \<not> swallowed ev) evs1"
    unfolding swallowsNothing_def by blast
  have l1: "evs1 = [] \<or> \<not> swallowed (last evs1)"
    using c1 by (cases evs1 rule: rev_cases) simp_all
  show "\<exists>evs. trace s' = trace s @ evs \<and> (evs = [] \<or> \<not> swallowed (last evs))"
  proof (cases r1)
    case Panic
    with run m1 t1 l1 show ?thesis by (auto simp: seq_def)
  next
    case (Err e)
    with run m1 t1 l1 show ?thesis by (auto simp: seq_def)
  next
    case (Ok a)
    with run m1 have "f a s1 = (r, s')" by (simp add: seq_def)
    with f [of a] obtain evs2 where t2: "trace s' = trace s1 @ evs2"
      and l2: "evs2 = [] \<or> \<not> swallowed (last evs2)"
      unfolding goesOnAfterSwallow_def by blast
    from t1 t2 have "trace s' = trace s @ (evs1 @ evs2)" by simp
    moreover from l1 l2 have "evs1 @ evs2 = [] \<or> \<not> swallowed (last (evs1 @ evs2))"
      by (cases "evs2 = []") simp_all
    ultimately show ?thesis by blast
  qed
qed

text \<open>After the cleanup comes a call, whatever the cleanup swallowed.\<close>

lemma goesOn_cleanup_then_invoke:
  assumes c: "\<And>ns name. c \<noteq> DeleteDeploymentCall ns name"
  shows "goesOnAfterSwallow (seq (cleanupHeapster d) (\<lambda>u. invoke c wrap f))"
  unfolding goesOnAfterSwallow_def
proof (intro allI impI)
  fix s r s'
  assume run: "seq (cleanupHeapster d) (\<lambda>u. invoke c wrap f) s = (r, s')"
  obtain r1 s1 where m1: "cleanupHeapster d s = (r1, s1)" by (cases "cleanupHeapster d s")
  from stops_cleanupHeapster m1 obtain evs1 where t1: "trace s1 = trace s @ evs1"
    and c1: "case r1 of
              Err e \<Rightarrow> evs1 \<noteq> [] \<and> snd (last evs1) = Inl e \<and> \<not> swallowed (last evs1) \<and>
                       list_all passed (butlast evs1)
            | Ok a \<Rightarrow> list_all passed evs1
            | Panic \<Rightarrow> list_all passed evs1"
    unfolding stopsAtFirstError_def by blast
  from cleanupHeapster_calls [OF m1] have np: "r1 \<noteq> Panic" by simp
  show "\<exists>evs. trace s' = trace s @ evs \<and> (evs = [] \<or> \<not> swallowed (last evs))"
  proof (cases r1)
    case Panic
    with np show ?thesis by simp
  next
    case (Err e)
    with run m1 t1 c1 show ?thesis by (auto simp: seq_def)
  next
    case (Ok u)
    with run m1 have "invoke c wrap f s1 = (r, s')" by (simp add: seq_def)
    then obtain out where "trace s' = trace s1 @ [(c, out)]" by (rule invokeE)
    with t1 have "trace s' = trace s @ (evs1 @ [(c, out)])" by simp
    moreover have "\<not> swallowed (last (evs1 @ [(c, out)]))"
      using not_swallowed [OF c] by simp
    ultimately show ?thesis by blast
  qed
qed

lemma goesOn_generateCoreAddonsChart: "goesOnAfterSwallow (generateCoreAddonsChart d b)"
  unfolding generateCoreAddonsChart_def call_defs
  by (intro goesOn_if_swallowsNothing swallowsNothing_seq swallowsNothing_deref
      swallowsNothing_invoke) simp_all

lemma goesOn_generateAdmissionControlsChart:
  "goesOnAfterSwallow (generateAdmissionControlsChart d)"
  unfolding generateAdmissionControlsChart_def call_defs
  by (intro goesOn_if_swallowsNothing swallowsNothing_seq swallowsNothing_invoke) simp_all

lemma goesOn_generateOptionalAddonsChart: "goesOnAfterSwallow (generateOptionalAddonsChart d b)"
  unfolding generateOptionalAddonsChart_def injectImages_def render_def
  by (intro goesOn_seq goesOn_cleanup_then_invoke swallowsNothing_invoke
      swallowsNothing_mergeNginxIngressConfig) simp_all

section \<open>Errors end the generation\<close>

text \<open>
  Claim C2, as amended. In each of the three chart-generation functions, when a call to
  a collaborator returns an error other than a not-found error of \<^verbatim>\<open>DeleteDeployment\<close>,
  the function returns that very error (and so no chart), and the failing call is the
  last call of the run: nothing is invoked after it. Conversely an error result is the
  error of the last call, and that call is not a swallowed one. The error is returned as
  it is; no stage name is attached. A not-found error of \<^verbatim>\<open>DeleteDeployment\<close> is
  swallowed and the run goes on: such a call is never the last call of a run, and the
  loop continues with the deployments that remain.
\<close>

theorem stage_error_aborts_generation:
  assumes "m = generateCoreAddonsChart d b \<or> m = generateOptionalAddonsChart d b \<or>
           m = generateAdmissionControlsChart d"
    and "m s = (r, s')"
  shows "(\<exists>evs. trace s' = trace s @ evs \<and>
           (\<forall>i c e. i < length evs \<and> evs ! i = (c, Inl e) \<and> \<not> swallowed (c, Inl e) \<longrightarrow>
              r = Err e \<and> Suc i = length evs) \<and>
           (\<forall>i c e. i < length evs \<and> evs ! i = (c, Inl e) \<and> swallowed (c, Inl e) \<longrightarrow>
              Suc i < length evs) \<and>
           (\<forall>e. r = Err e \<longrightarrow> evs \<noteq> [] \<and> snd (last evs) = Inl e \<and> \<not> swallowed (last evs))) \<and>
         (\<forall>deployment rest t e w.
            DeleteDeployment d NamespaceSystem (Name deployment) (world t) = (Inl e, w) \<and>
            IsNotFound e \<longrightarrow>
            deleteHeapsterDeployments d (deployment # rest) t =
              deleteHeapsterDeployments d rest
                \<lparr>trace = trace t @ [(DeleteDeploymentCall NamespaceSystem (Name deployment), Inl e)],
                 world = w\<rparr>)"
proof -
  from assms(1) have st: "stopsAtFirstError m"
    using stops_generateCoreAddonsChart stops_generateOptionalAddonsChart
      stops_generateAdmissionControlsChart by blast
  from assms(1) have go: "goesOnAfterSwallow m"
    using goesOn_generateCoreAddonsChart goesOn_generateOptionalAddonsChart
      goesOn_generateAdmissionControlsChart by blast
  from st assms(2) obtain evs where t: "trace s' = trace s @ evs"
    and c: "case r of
              Err e \<Rightarrow> evs \<noteq> [] \<and> snd (last evs) = Inl e \<and> \<not> swallowed (last evs) \<and>
                       list_all passed (butlast evs)
            | Ok a \<Rightarrow> list_all passed evs
            | Panic \<Rightarrow> list_all passed evs"
    unfolding stopsAtFirstError_def by blast
  from go assms(2) t have l: "evs = [] \<or> \<not> swallowed (last evs)"
    unfolding goesOnAfterSwallow_def by fastforce
  have "\<forall>i c e. i < length evs \<and> evs ! i = (c, Inl e) \<and> \<not> swallowed (c, Inl e) \<longrightarrow>
              r = Err e \<and> Suc i = length evs"
    using failed_call_is_last [OF st assms(2) t] by blast
  moreover have "Suc i < length evs"
    if i: "i < length evs" and ev: "evs ! i = (c, Inl e)" and sw: "swallowed (c, Inl e)" for i c e
  proof (rule ccontr)
    assume "\<not> Suc i < length evs"
    with i have "i = length evs - 1" and ne: "evs \<noteq> []" by auto
    then have "last evs = evs ! i" by (simp add: last_conv_nth)
    with ev sw l ne show False by simp
  qed
  moreover have "\<forall>e. r = Err e \<longrightarrow> evs \<noteq> [] \<and> snd (last evs) = Inl e \<and> \<not> swallowed (last evs)"
    using c by auto
  ultimately have calls: "\<exists>evs. trace s' = trace s @ evs \<and>
           (\<forall>i c e. i < length evs \<and> evs ! i = (c, Inl e) \<and> \<not> swallowed (c, Inl e) \<longrightarrow>
              r = Err e \<and> Suc i = length evs) \<and>
           (\<forall>i c e. i < length evs \<and> evs ! i = (c, Inl e) \<and> swallowed (c, Inl e) \<longrightarrow>
              Suc i < length evs) \<and>
           (\<forall>e. r = Err e \<longrightarrow> evs \<noteq> [] \<and> snd (last evs) = Inl e \<and> \<not> swallowed (last evs))"
    using t by blast
  have loop: "\<forall>deployment rest t e w.
            DeleteDeployment d NamespaceSystem (Name deployment) (world t) = (Inl e, w) \<and>
            IsNotFound e \<longrightarrow>
            deleteHeapsterDeployments d (deployment # rest) t =
              deleteHeapsterDeployments d rest
                \<lparr>trace = trace t @ [(DeleteDeploymentCall NamespaceSystem (Name deployment), Inl e)],
                 world = w\<rparr>"
    by (simp add: deleteDeployment_def invoke_def)
  from calls loop show ?thesis by (rule conjI)
qed

text \<open>
  On the example cluster, with a helm-tiller generator that fails: the run ends with that
  call and returns its error. With a stale listing the delete is the fifteenth call and
  fails with a not-found error: a call follows it, and the loop ends without an error.
\<close>

theorem stage_error_aborts_generation_witness:
  "fst (generateOptionalAddonsChart brokenTillerDeps exampleBotanist (start emptyCluster)) =
     Err (OtherError ''boom'') \<and>
   (\<exists>evs. trace (snd (generateOptionalAddonsChart brokenTillerDeps exampleBotanist
                        (start emptyCluster))) = trace (start emptyCluster) @ evs \<and>
      (\<forall>i c e. i < length evs \<and> evs ! i = (c, Inl e) \<and> \<not> swallowed (c, Inl e) \<longrightarrow>
         e = OtherError ''boom'' \<and> Suc i = length evs) \<and>
      evs \<noteq> [] \<and> snd (last evs) = Inl (OtherError ''boom'')) \<and>
   trace (snd (generateOptionalAddonsChart staleListingDeps exampleBotanist (start emptyCluster))) ! 14 =
     (DeleteDeploymentCall NamespaceSystem ''heapster'',
      Inl (StatusError StatusReasonNotFound ''heapster'')) \<and>
   Suc 14 < length (trace (snd (generateOptionalAddonsChart staleListingDeps exampleBotanist
                                  (start emptyCluster)))) \<and>
   deleteHeapsterDeployments staleListingDeps [heapster] (start emptyCluster) =
     (Ok (),
      \<lparr>trace = [(DeleteDeploymentCall NamespaceSystem ''heapster'',
                  Inl (StatusError StatusReasonNotFound ''heapster''))],
       world = emptyCluster\<rparr>)"
proof -
  let ?run = "generateOptionalAddonsChart brokenTillerDeps exampleBotanist (start emptyCluster)"
  let ?stale = "generateOptionalAddonsChart staleListingDeps exampleBotanist (start emptyCluster)"
  let ?ev = "(DeleteDeploymentCall NamespaceSystem ''heapster'',
      Inl (StatusError StatusReasonNotFound ''heapster''))"
  have r: "fst ?run = Err (OtherError ''boom'')"
    by code_simp
  then have run: "?run = (Err (OtherError ''boom''), snd ?run)"
    by (metis prod.collapse)
  from stage_error_aborts_generation
         [of "generateOptionalAddonsChart brokenTillerDeps exampleBotanist"
             brokenTillerDeps exampleBotanist "start emptyCluster", OF _ run, THEN conjunct1] r
  have first: "fst ?run = Err (OtherError ''boom'') \<and>
   (\<exists>evs. trace (snd ?run) = trace (start emptyCluster) @ evs \<and>
      (\<forall>i c e. i < length evs \<and> evs ! i = (c, Inl e) \<and> \<not> swallowed (c, Inl e) \<longrightarrow>
         e = OtherError ''boom'' \<and> Suc i = length evs) \<and>
      evs \<noteq> [] \<and> snd (last evs) = Inl (OtherError ''boom''))"
    by auto
  have stale: "?stale = (fst ?stale, snd ?stale)" by simp
  have nth: "trace (snd ?stale) ! 14 = ?ev" by code_simp
  have len: "14 < length (trace (snd ?stale))" by code_simp
  have sw: "swallowed ?ev" by (simp add: swallowed_def)
  from stage_error_aborts_generation
         [of "generateOptionalAddonsChart staleListingDeps exampleBotanist"
             staleListingDeps exampleBotanist "start emptyCluster", OF _ stale, THEN conjunct1]
  obtain evs where t: "trace (snd ?stale) = trace (start emptyCluster) @ evs"
    and go: "\<forall>i c e. i < length evs \<and> evs ! i = (c, Inl e) \<and> swallowed (c, Inl e) \<longrightarrow>
              Suc i < length evs"
    by auto
  from t have "evs = trace (snd ?stale)" by (simp add: start_def)
  with go nth len sw have after: "Suc 14 < length (trace (snd ?stale))" by blast
  have gone: "DeleteDeployment staleListingDeps NamespaceSystem (Name heapster)
        (world (start emptyCluster)) =
      (Inl (StatusError StatusReasonNotFound ''heapster''), emptyCluster) \<and>
      IsNotFound (StatusError StatusReasonNotFound ''heapster'')"
    by (simp add: staleListingDeps_def exampleDeps_def exampleDelete_def heapster_def start_def
        emptyCluster_def)
  from stage_error_aborts_generation
         [of "generateOptionalAddonsChart staleListingDeps exampleBotanist"
             staleListingDeps exampleBotanist "start emptyCluster", OF _ stale, THEN conjunct2,
          THEN spec, THEN spec, THEN spec, THEN spec, THEN spec, THEN mp, OF _ gone]
  have "deleteHeapsterDeployments staleListingDeps [heapster] (start emptyCluster) =
      deleteHeapsterDeployments staleListingDeps []
        \<lparr>trace = trace (start emptyCluster) @
           [(DeleteDeploymentCall NamespaceSystem (Name heapster),
             Inl (StatusError StatusReasonNotFound ''heapster''))],
         world = emptyCluster\<rparr>"
    by simp
  then have loop: "deleteHeapsterDeployments staleListingDeps [heapster] (start emptyCluster) =
     (Ok (),
      \<lparr>trace = [(DeleteDeploymentCall NamespaceSystem ''heapster'',
                  Inl (StatusError StatusReasonNotFound ''heapster''))],
       world = emptyCluster\<rparr>)"
    by (simp add: start_def heapster_def)
  show ?thesis
    apply (intro conjI)
    apply (rule first [THEN conjunct1] first [THEN conjunct2] nth after loop)+
    done
qed

text \<open>
  The claim as first stated does not hold. With a stale listing, \<^verbatim>\<open>DeleteDeployment\<close>
  returns a not-found error and the function goes on to render and returns the chart.
  And a failing image injection gives the same error value from the core and from the
  optional chart generation: the error carries no name of the stage it comes from.
\<close>

theorem stage_error_counterexample:
  "fst (generateOptionalAddonsChart staleListingDeps exampleBotanist (start emptyCluster)) =
     Ok [''addons''] \<and>
   (DeleteDeploymentCall NamespaceSystem ''heapster'',
      Inl (StatusError StatusReasonNotFound ''heapster''))
     \<in> set (trace (snd (generateOptionalAddonsChart staleListingDeps exampleBotanist
                          (start emptyCluster)))) \<and>
   snd (last (trace (snd (generateOptionalAddonsChart staleListingDeps exampleBotanist
                            (start emptyCluster))))) = Inr (RChart [''addons'']) \<and>
   fst (generateCoreAddonsChart brokenImagesDeps exampleBotanist (start emptyCluster)) =
     Err (OtherError ''boom'') \<and>
   fst (generateOptionalAddonsChart brokenImagesDeps exampleBotanist (start emptyCluster)) =
     Err (OtherError ''boom'')"
  by code_simp

section \<open>The core chart and the secrets it reads\<close>

text \<open>
  A run of \<^const>\<open>generateCoreAddonsChart\<close> that returns a chart, call by call.
\<close>

lemma core_success:
  assumes "generateCoreAddonsChart d b s = (Ok chart, s')"
  obtains kubeProxySecret caMetricsServerSecret metricsServerSecret vpnTLSAuthSecret
    vpnShootConfig1 vpnShootSecret calico kubeDNS kubeProxy metricsServer vpnShoot nodeExporter w w'
  where "secretAt b ''kube-proxy'' = Some kubeProxySecret"
    and "secretAt b ''ca-metrics-server'' = Some caMetricsServerSecret"
    and "secretAt b ''metrics-server'' = Some metricsServerSecret"
    and "secretAt b ''vpn-seed-tlsauth'' = Some vpnTLSAuthSecret"
    and "setDiffieHellmanKey d b (vpnShootConfig d b vpnTLSAuthSecret) = Some vpnShootConfig1"
    and "secretAt b ''vpn-shoot'' = Some vpnShootSecret"
    and "InjectImages d vpnShootConfig1 (Version d) [(''vpn-shoot'', ''vpn-shoot'')] w =
           (Inr vpnShoot, w')"
    and "trace s' = trace s @
           coreEvents d b kubeProxySecret caMetricsServerSecret metricsServerSecret
             vpnShootConfig1 vpnShootSecret calico kubeDNS kubeProxy metricsServer vpnShoot
             nodeExporter chart"
proof -
  have "\<exists>kubeProxySecret caMetricsServerSecret metricsServerSecret vpnTLSAuthSecret
           vpnShootConfig1 vpnShootSecret calico kubeDNS kubeProxy metricsServer vpnShoot
           nodeExporter w w'.
          secretAt b ''kube-proxy'' = Some kubeProxySecret \<and>
          secretAt b ''ca-metrics-server'' = Some caMetricsServerSecret \<and>
          secretAt b ''metrics-server'' = Some metricsServerSecret \<and>
          secretAt b ''vpn-seed-tlsauth'' = Some vpnTLSAuthSecret \<and>
          setDiffieHellmanKey d b (vpnShootConfig d b vpnTLSAuthSecret) = Some vpnShootConfig1 \<and>
          secretAt b ''vpn-shoot'' = Some vpnShootSecret \<and>
          InjectImages d vpnShootConfig1 (Version d) [(''vpn-shoot'', ''vpn-shoot'')] w =
            (Inr vpnShoot, w') \<and>
          trace s' = trace s @
            coreEvents d b kubeProxySecret caMetricsServerSecret metricsServerSecret
              vpnShootConfig1 vpnShootSecret calico kubeDNS kubeProxy metricsServer vpnShoot
              nodeExporter chart"
    using assms
    apply (simp add: generateCoreAddonsChart_def call_defs seq_Ok_iff deref_Ok_iff invoke_Ok_iff
        coreEvents_def)
    apply (elim exE conjE)
    apply simp
    apply blast
    done
  then show thesis
    by (elim exE conjE) (rule that)
qed

text \<open>
  Claim C9. Generating the core chart is not a pure render. A run that returns a chart
  has, after the six image injections and right before the call to the renderer, created
  the secret \<^verbatim>\<open>vpn-shoot\<close> of type \<^verbatim>\<open>Opaque\<close> in the system namespace from the data of
  the bundle's \<^verbatim>\<open>vpn-shoot\<close> secret, with the update flag set. When that call fails, the
  function returns its error and the renderer is never called: the failed call is the
  last call of the run.
\<close>

theorem core_chart_creates_vpn_shoot_secret:
  assumes run: "generateCoreAddonsChart d b s = (r, s')"
  shows "(\<forall>chart. r = Ok chart \<longrightarrow>
            (\<exists>vpnShootSecret injections vals.
               secretAt b ''vpn-shoot'' = Some vpnShootSecret \<and>
               list_all (\<lambda>ev. \<exists>c v images a. ev = (InjectImagesCall c v images, Inr a)) injections \<and>
               trace s' = trace s @ injections @
                 [(CreateSecretCall NamespaceSystem ''vpn-shoot'' SecretTypeOpaque
                     (Data vpnShootSecret) True, Inr RUnit),
                  (RenderCall (Join d (ChartPath d) ''shoot-core'') ''shoot-core''
                     NamespaceSystem vals, Inr (RChart chart))])) \<and>
         (\<forall>evs ns name type dat upd e.
            trace s' = trace s @ evs \<and>
            (CreateSecretCall ns name type dat upd, Inl e) \<in> set evs \<longrightarrow>
            r = Err e \<and> last evs = (CreateSecretCall ns name type dat upd, Inl e))"
proof (intro conjI allI impI)
  fix chart
  assume "r = Ok chart"
  with run have ok: "generateCoreAddonsChart d b s = (Ok chart, s')" by simp
  from ok obtain kps cams mss vpnCfg vss calico kubeDNS kubeProxy metricsServer vpnShoot
      nodeExporter
    where vss: "secretAt b ''vpn-shoot'' = Some vss"
      and tr: "trace s' = trace s @
                 coreEvents d b kps cams mss vpnCfg vss calico kubeDNS kubeProxy metricsServer
                   vpnShoot nodeExporter chart"
    by (rule core_success)
  let ?evs = "coreEvents d b kps cams mss vpnCfg vss calico kubeDNS kubeProxy metricsServer
                vpnShoot nodeExporter chart"
  have "list_all (\<lambda>ev. \<exists>c v images a. ev = (InjectImagesCall c v images, Inr a)) (take 6 ?evs)"
    by (simp add: coreEvents_def)
  moreover have "trace s' = trace s @ take 6 ?evs @
                 [(CreateSecretCall NamespaceSystem ''vpn-shoot'' SecretTypeOpaque
                     (Data vss) True, Inr RUnit),
                  (RenderCall (Join d (ChartPath d) ''shoot-core'') ''shoot-core''
                     NamespaceSystem
                     (coreValues d b kubeDNS kubeProxy vpnShoot calico metricsServer nodeExporter),
                   Inr (RChart chart))]"
    by (simp add: tr coreEvents_def)
  ultimately show "\<exists>vpnShootSecret injections vals.
               secretAt b ''vpn-shoot'' = Some vpnShootSecret \<and>
               list_all (\<lambda>ev. \<exists>c v images a. ev = (InjectImagesCall c v images, Inr a)) injections \<and>
               trace s' = trace s @ injections @
                 [(CreateSecretCall NamespaceSystem ''vpn-shoot'' SecretTypeOpaque
                     (Data vpnShootSecret) True, Inr RUnit),
                  (RenderCall (Join d (ChartPath d) ''shoot-core'') ''shoot-core''
                     NamespaceSystem vals, Inr (RChart chart))]"
    using vss by blast
next
  fix evs ns name type dat upd e
  assume a: "trace s' = trace s @ evs \<and> (CreateSecretCall ns name type dat upd, Inl e) \<in> set evs"
  have "\<not> swallowed (CreateSecretCall ns name type dat upd, Inl e)"
    by (simp add: swallowed_def)
  with failed_event_is_last [OF stops_generateCoreAddonsChart run] a
  show "r = Err e" and "last evs = (CreateSecretCall ns name type dat upd, Inl e)"
    by blast+
qed

text \<open>
  On the example cluster the secret is in the cluster after the run; with a client that
  refuses to create it, the run ends with that call.
\<close>

theorem core_chart_creates_vpn_shoot_secret_witness:
  "(\<exists>injections vals.
      trace (snd (generateCoreAddonsChart exampleDeps exampleBotanist (start emptyCluster))) =
        trace (start emptyCluster) @ injections @
          [(CreateSecretCall NamespaceSystem ''vpn-shoot'' SecretTypeOpaque
              [(''tls.key'', ''key'')] True, Inr RUnit),
           (RenderCall (Join exampleDeps (ChartPath exampleDeps) ''shoot-core'') ''shoot-core''
              NamespaceSystem vals, Inr (RChart [''shoot-core'']))]) \<and>
   secrets (world (snd (generateCoreAddonsChart exampleDeps exampleBotanist (start emptyCluster)))) =
     [(''vpn-shoot'', [(''tls.key'', ''key'')])] \<and>
   fst (generateCoreAddonsChart brokenSecretDeps exampleBotanist (start emptyCluster)) =
     Err (StatusError StatusReasonForbidden ''vpn-shoot'') \<and>
   last (trace (snd (generateCoreAddonsChart brokenSecretDeps exampleBotanist (start emptyCluster)))) =
     (CreateSecretCall NamespaceSystem ''vpn-shoot'' SecretTypeOpaque [(''tls.key'', ''key'')] True,
      Inl (StatusError StatusReasonForbidden ''vpn-shoot''))"
proof -
  let ?ok = "generateCoreAddonsChart exampleDeps exampleBotanist (start emptyCluster)"
  let ?bad = "generateCoreAddonsChart brokenSecretDeps exampleBotanist (start emptyCluster)"
  let ?ev = "(CreateSecretCall NamespaceSystem ''vpn-shoot'' SecretTypeOpaque [(''tls.key'', ''key'')] True,
      Inl (StatusError StatusReasonForbidden ''vpn-shoot''))"
  have "fst ?ok = Ok [''shoot-core'']" by code_simp
  then have ok: "?ok = (Ok [''shoot-core''], snd ?ok)" by (metis prod.collapse)
  have vs: "secretAt exampleBotanist ''vpn-shoot'' = Some \<lparr>Data = [(''tls.key'', ''key'')]\<rparr>"
    by (simp add: secretAt_def exampleBotanist_def exampleSecrets_def)
  have w: "secrets (world (snd ?ok)) = [(''vpn-shoot'', [(''tls.key'', ''key'')])]" by code_simp
  have bad: "?bad = (fst ?bad, snd ?bad)" by simp
  have tr: "trace (snd ?bad) = trace (start emptyCluster) @ trace (snd ?bad)"
    by (simp add: start_def)
  have mem: "?ev \<in> set (trace (snd ?bad))" by code_simp
  from core_chart_creates_vpn_shoot_secret [OF bad] tr mem
  have "fst ?bad = Err (StatusError StatusReasonForbidden ''vpn-shoot'') \<and> last (trace (snd ?bad)) = ?ev"
    by blast
  moreover from core_chart_creates_vpn_shoot_secret [OF ok] vs
  have "\<exists>injections vals.
      trace (snd ?ok) = trace (start emptyCluster) @ injections @
          [(CreateSecretCall NamespaceSystem ''vpn-shoot'' SecretTypeOpaque
              [(''tls.key'', ''key'')] True, Inr RUnit),
           (RenderCall (Join exampleDeps (ChartPath exampleDeps) ''shoot-core'') ''shoot-core''
              NamespaceSystem vals, Inr (RChart [''shoot-core'']))]"
    by fastforce
  ultimately show ?thesis using w by blast
qed

text \<open>
  Claim C10, as amended. The guard of the Diffie-Hellman secret (line 83) is the
  \<^verbatim>\<open>ok\<close> of the map lookup: it tells whether the key is there, not whether the pointer
  under it is nil. When the bundle holds the secrets \<^verbatim>\<open>kube-proxy\<close>, \<^verbatim>\<open>vpn-seed-tlsauth\<close>,
  \<^verbatim>\<open>ca-metrics-server\<close>, \<^verbatim>\<open>metrics-server\<close> and \<^verbatim>\<open>vpn-shoot\<close>, and the Diffie-Hellman
  key is absent or holds a secret, generating the core chart never dereferences a nil
  secret, whether or not the \<^verbatim>\<open>KubeProxy\<close> section is there. The five are read without
  a guard: without one of the first four the function panics before any call, and
  without \<^verbatim>\<open>vpn-shoot\<close> it never returns a chart. With the Diffie-Hellman key there and
  the nil pointer under it, the function panics before any call.
\<close>

theorem core_chart_needs_its_secrets:
  "((\<forall>k \<in> {''kube-proxy'', ''vpn-seed-tlsauth'', ''ca-metrics-server'', ''metrics-server'',
              ''vpn-shoot''}. secretAt b k \<noteq> None) \<and>
    Secrets b (GardenRoleOpenVPNDiffieHellman d) \<noteq> Some None \<longrightarrow>
      fst (generateCoreAddonsChart d b s) \<noteq> Panic) \<and>
   (k \<in> {''kube-proxy'', ''vpn-seed-tlsauth'', ''ca-metrics-server'', ''metrics-server''} \<and>
      secretAt b k = None \<longrightarrow>
     generateCoreAddonsChart d b s = (Panic, s)) \<and>
   (Secrets b (GardenRoleOpenVPNDiffieHellman d) = Some None \<longrightarrow>
     generateCoreAddonsChart d b s = (Panic, s)) \<and>
   (secretAt b ''vpn-shoot'' = None \<longrightarrow>
     (\<forall>chart. fst (generateCoreAddonsChart d b s) \<noteq> Ok chart))"
proof (intro conjI impI)
  assume present: "(\<forall>k \<in> {''kube-proxy'', ''vpn-seed-tlsauth'', ''ca-metrics-server'',
      ''metrics-server'', ''vpn-shoot''}. secretAt b k \<noteq> None) \<and>
    Secrets b (GardenRoleOpenVPNDiffieHellman d) \<noteq> Some None"
  then have dh: "setDiffieHellmanKey d b c \<noteq> None" for c
    by (auto simp: setDiffieHellmanKey_def split: option.splits)
  show "fst (generateCoreAddonsChart d b s) \<noteq> Panic"
  proof
    assume "fst (generateCoreAddonsChart d b s) = Panic"
    then obtain s' where "generateCoreAddonsChart d b s = (Panic, s')"
      by (cases "generateCoreAddonsChart d b s") auto
    then show False using present dh
      by (auto simp: generateCoreAddonsChart_def call_defs run_iffs)
  qed
next
  assume "k \<in> {''kube-proxy'', ''vpn-seed-tlsauth'', ''ca-metrics-server'', ''metrics-server''} \<and>
      secretAt b k = None"
  then show "generateCoreAddonsChart d b s = (Panic, s)"
    by (auto simp: generateCoreAddonsChart_def seq_def deref_def split: option.splits)
next
  assume "Secrets b (GardenRoleOpenVPNDiffieHellman d) = Some None"
  then have "setDiffieHellmanKey d b c = None" for c
    by (simp add: setDiffieHellmanKey_def)
  then show "generateCoreAddonsChart d b s = (Panic, s)"
    by (auto simp: generateCoreAddonsChart_def seq_def deref_def split: option.splits)
next
  assume absent: "secretAt b ''vpn-shoot'' = None"
  show "\<forall>chart. fst (generateCoreAddonsChart d b s) \<noteq> Ok chart"
  proof (intro allI notI)
    fix chart
    assume "fst (generateCoreAddonsChart d b s) = Ok chart"
    then obtain s' where "generateCoreAddonsChart d b s = (Ok chart, s')"
      by (cases "generateCoreAddonsChart d b s") auto
    then obtain vss where "secretAt b ''vpn-shoot'' = Some vss"
      by (rule core_success)
    with absent show False by simp
  qed
qed

text \<open>
  The example bundle holds the five secrets, with or without a Diffie-Hellman secret;
  without \<^verbatim>\<open>kube-proxy\<close>, or with a nil Diffie-Hellman secret, the function panics at
  once, and without \<^verbatim>\<open>vpn-shoot\<close> it returns no chart.
\<close>

theorem core_chart_needs_its_secrets_witness:
  "fst (generateCoreAddonsChart exampleDeps exampleBotanist (start emptyCluster)) \<noteq> Panic \<and>
   fst (generateCoreAddonsChart exampleDeps diffieHellmanBotanist (start emptyCluster)) \<noteq> Panic \<and>
   generateCoreAddonsChart exampleDeps noKubeProxyBotanist (start emptyCluster) =
     (Panic, start emptyCluster) \<and>
   generateCoreAddonsChart exampleDeps nilDiffieHellmanBotanist (start emptyCluster) =
     (Panic, start emptyCluster) \<and>
   (\<forall>chart. fst (generateCoreAddonsChart exampleDeps noVPNShootBotanist (start emptyCluster)) \<noteq>
     Ok chart)"
proof -
  have p1: "(\<forall>k \<in> {''kube-proxy'', ''vpn-seed-tlsauth'', ''ca-metrics-server'', ''metrics-server'',
              ''vpn-shoot''}. secretAt exampleBotanist k \<noteq> None) \<and>
    Secrets exampleBotanist (GardenRoleOpenVPNDiffieHellman exampleDeps) \<noteq> Some None"
    by (simp add: secretAt_def exampleBotanist_def exampleSecrets_def exampleDeps_def)
  have p2: "(\<forall>k \<in> {''kube-proxy'', ''vpn-seed-tlsauth'', ''ca-metrics-server'', ''metrics-server'',
              ''vpn-shoot''}. secretAt diffieHellmanBotanist k \<noteq> None) \<and>
    Secrets diffieHellmanBotanist (GardenRoleOpenVPNDiffieHellman exampleDeps) \<noteq> Some None"
    by (simp add: secretAt_def diffieHellmanBotanist_def exampleBotanist_def exampleSecrets_def
        exampleDeps_def)
  have a1: "''kube-proxy'' \<in> {''kube-proxy'', ''vpn-seed-tlsauth'', ''ca-metrics-server'',
      ''metrics-server''} \<and> secretAt noKubeProxyBotanist ''kube-proxy'' = None"
    by (simp add: secretAt_def noKubeProxyBotanist_def)
  have a2: "Secrets nilDiffieHellmanBotanist (GardenRoleOpenVPNDiffieHellman exampleDeps) = Some None"
    by (simp add: nilDiffieHellmanBotanist_def exampleDeps_def)
  have a3: "secretAt noVPNShootBotanist ''vpn-shoot'' = None"
    by (simp add: secretAt_def noVPNShootBotanist_def)
  note c1 = core_chart_needs_its_secrets
              [where b = exampleBotanist and d = exampleDeps and s = "start emptyCluster",
               THEN conjunct1, THEN mp, OF p1]
  note c2 = core_chart_needs_its_secrets
              [where b = diffieHellmanBotanist and d = exampleDeps and s = "start emptyCluster",
               THEN conjunct1, THEN mp, OF p2]
  note c3 = core_chart_needs_its_secrets
              [where b = noKubeProxyBotanist and d = exampleDeps and s = "start emptyCluster"
                 and k = "''kube-proxy''",
               THEN conjunct2, THEN conjunct1, THEN mp, OF a1]
  note c4 = core_chart_needs_its_secrets
              [where b = nilDiffieHellmanBotanist and d = exampleDeps and s = "start emptyCluster",
               THEN conjunct2, THEN conjunct2, THEN conjunct1, THEN mp, OF a2]
  note c5 = core_chart_needs_its_secrets
              [where b = noVPNShootBotanist and d = exampleDeps and s = "start emptyCluster",
               THEN conjunct2, THEN conjunct2, THEN conjunct2, THEN mp, OF a3]
  from c1 c2 c3 c4 c5 show ?thesis by (intro conjI)
qed

text \<open>
  The claim as first stated does not hold: the five secrets alone are not enough. The
  bundle below holds all five, and the Diffie-Hellman key with the nil pointer under it;
  the guard lets it through and line 84 dereferences it.
\<close>

theorem core_chart_nil_secret_counterexample:
  "secretAt nilDiffieHellmanBotanist ''kube-proxy'' = Some \<lparr>Data = [(''kubeconfig'', ''kc'')]\<rparr> \<and>
   secretAt nilDiffieHellmanBotanist ''vpn-seed-tlsauth'' = Some \<lparr>Data = [(''vpn.tlsauth'', ''psk'')]\<rparr> \<and>
   secretAt nilDiffieHellmanBotanist ''ca-metrics-server'' = Some \<lparr>Data = [(''ca.crt'', ''ca'')]\<rparr> \<and>
   secretAt nilDiffieHellmanBotanist ''metrics-server'' = Some \<lparr>Data = [(''tls.crt'', ''crt'')]\<rparr> \<and>
   secretAt nilDiffieHellmanBotanist ''vpn-shoot'' = Some \<lparr>Data = [(''tls.key'', ''key'')]\<rparr> \<and>
   Secrets nilDiffieHellmanBotanist (GardenRoleOpenVPNDiffieHellman exampleDeps) = Some None \<and>
   generateCoreAddonsChart exampleDeps nilDiffieHellmanBotanist (start emptyCluster) =
     (Panic, start emptyCluster)"
  by code_simp

section \<open>What the core chart is rendered from\<close>

lemma map_of_setDiffieHellmanKey:
  assumes "setDiffieHellmanKey d b c = Some c1" and "k \<noteq> ''diffieHellmanKey''"
  shows "map_of c1 k = map_of c k"
  using assms
  by (auto simp: setDiffieHellmanKey_def update_conv' split: option.splits)

lemma map_of_kubeProxyConfig:
  assumes "k \<noteq> ''featureGates''"
  shows "map_of (kubeProxyConfig b kps) k =
           map_of [(''kubeconfig'', VBytes (dataAt kps ''kubeconfig'')),
                   (''podAnnotations'',
                      VMap [(''checksum/secret-kube-proxy'', VStr (checkSum b ''kube-proxy''))])] k"
  using assms
  by (simp add: kubeProxyConfig_def Let_def update_conv' split: option.splits)




text \<open>
  Claim C6, as amended. The kube-proxy configuration carries the Checksum Map's entry for
  \<^verbatim>\<open>kube-proxy\<close> as the pod annotation \<^verbatim>\<open>checksum/secret-kube-proxy\<close>, and the vpn-shoot
  configuration, also once the Diffie-Hellman key is set, the entry for \<^verbatim>\<open>vpn-shoot\<close>
  as \<^verbatim>\<open>checksum/secret-vpn-shoot\<close>; the metrics-server configuration has no pod
  annotation. These are the third, fifth and fourth configuration that a run returning a
  chart hands to image injection. The annotation is the entry of the Checksum Map and
  nothing else. Take two bundles that differ in one of the two secrets and in its entry
  of the map, which may also stay as it is: the annotations of that addon are equal
  exactly when the two entries read the same, and the configurations of the other addons
  are the same, as are all other secrets and entries. The name of the Diffie-Hellman
  secret is a constant of the repository that is not at hand; it is assumed to differ
  from the changed secret's.
\<close>

theorem checksum_annotations:
  assumes dh: "GardenRoleOpenVPNDiffieHellman d \<noteq> name"
    and b': "b' = b\<lparr>Secrets := (Secrets b)(name \<mapsto> Some secret'),
                     CheckSums := (CheckSums b)(name := newEntry)\<rparr>"
  shows "map_of (kubeProxyConfig b kubeProxySecret) ''podAnnotations'' =
           Some (VMap [(''checksum/secret-kube-proxy'', VStr (checkSum b ''kube-proxy''))]) \<and>
         (\<forall>vpnShootConfig1.
            setDiffieHellmanKey d b (vpnShootConfig d b vpnTLSAuthSecret) = Some vpnShootConfig1 \<longrightarrow>
            map_of vpnShootConfig1 ''podAnnotations'' =
              Some (VMap [(''checksum/secret-vpn-shoot'', VStr (checkSum b ''vpn-shoot''))])) \<and>
         map_of (metricsServerConfig d caMetricsServerSecret metricsServerSecret)
           ''podAnnotations'' = None \<and>
         (\<forall>s chart s'. generateCoreAddonsChart d b s = (Ok chart, s') \<longrightarrow>
            (\<exists>kubeProxyConfig1 metricsServerConfig1 vpnShootConfig1 kubeProxy metricsServer vpnShoot.
               trace s' ! (length (trace s) + 2) =
                 (InjectImagesCall kubeProxyConfig1 (Version d) [(''hyperkube'', ''hyperkube'')],
                  Inr (RConfig kubeProxy)) \<and>
               map_of kubeProxyConfig1 ''podAnnotations'' =
                 Some (VMap [(''checksum/secret-kube-proxy'', VStr (checkSum b ''kube-proxy''))]) \<and>
               trace s' ! (length (trace s) + 3) =
                 (InjectImagesCall metricsServerConfig1 (Version d)
                    [(''metrics-server'', ''metrics-server'')], Inr (RConfig metricsServer)) \<and>
               map_of metricsServerConfig1 ''podAnnotations'' = None \<and>
               trace s' ! (length (trace s) + 4) =
                 (InjectImagesCall vpnShootConfig1 (Version d) [(''vpn-shoot'', ''vpn-shoot'')],
                  Inr (RConfig vpnShoot)) \<and>
               map_of vpnShootConfig1 ''podAnnotations'' =
                 Some (VMap [(''checksum/secret-vpn-shoot'', VStr (checkSum b ''vpn-shoot''))]))) \<and>
         (name = ''kube-proxy'' \<longrightarrow>
            ((map_of (kubeProxyConfig b' secret') ''podAnnotations'' =
                map_of (kubeProxyConfig b kubeProxySecret) ''podAnnotations'') =
             (checkSum b' ''kube-proxy'' = checkSum b ''kube-proxy'')) \<and>
            vpnShootConfig d b' vpnTLSAuthSecret = vpnShootConfig d b vpnTLSAuthSecret \<and>
            setDiffieHellmanKey d b' vpnShootConfig0 = setDiffieHellmanKey d b vpnShootConfig0) \<and>
         (name = ''vpn-shoot'' \<longrightarrow>
            ((map_of (vpnShootConfig d b' vpnTLSAuthSecret) ''podAnnotations'' =
                map_of (vpnShootConfig d b vpnTLSAuthSecret) ''podAnnotations'') =
             (checkSum b' ''vpn-shoot'' = checkSum b ''vpn-shoot'')) \<and>
            kubeProxyConfig b' kubeProxySecret = kubeProxyConfig b kubeProxySecret) \<and>
         checkSum b' name = (case newEntry of None \<Rightarrow> [] | Some c \<Rightarrow> c) \<and>
         calicoConfig b' = calicoConfig b \<and>
         kubeDNSConfig d b' = kubeDNSConfig d b \<and>
         global d b' = global d b \<and>
         (\<forall>other. other \<noteq> name \<longrightarrow>
            secretAt b' other = secretAt b other \<and> checkSum b' other = checkSum b other)"
proof -
  have shoot: "Shoot b' = Shoot b" by (simp add: b')
  have sums: "checkSum b' other =
      (if other = name then (case newEntry of None \<Rightarrow> [] | Some c \<Rightarrow> c) else checkSum b other)"
    for other
    by (simp add: b' checkSum_def)
  have secs: "Secrets b' other = (if other = name then Some (Some secret') else Secrets b other)"
    for other
    by (simp add: b')
  have kp: "map_of (kubeProxyConfig c kps) ''podAnnotations'' =
              Some (VMap [(''checksum/secret-kube-proxy'', VStr (checkSum c ''kube-proxy''))])"
    for c kps
    by (simp add: map_of_kubeProxyConfig)
  have vpn0: "map_of (vpnShootConfig d c tls) ''podAnnotations'' =
              Some (VMap [(''checksum/secret-vpn-shoot'', VStr (checkSum c ''vpn-shoot''))])"
    for c tls
    by (simp add: vpnShootConfig_def)
  have vpn: "map_of c1 ''podAnnotations'' =
              Some (VMap [(''checksum/secret-vpn-shoot'', VStr (checkSum c ''vpn-shoot''))])"
    if "setDiffieHellmanKey d c (vpnShootConfig d c tls) = Some c1" for c tls c1
    by (simp add: map_of_setDiffieHellmanKey [OF that] vpn0)
  have ms: "map_of (metricsServerConfig d cams mss) ''podAnnotations'' = None" for cams mss
    by (simp add: metricsServerConfig_def)
  have runs: "\<exists>kubeProxyConfig1 metricsServerConfig1 vpnShootConfig1 kubeProxy metricsServer vpnShoot.
               trace s' ! (length (trace s) + 2) =
                 (InjectImagesCall kubeProxyConfig1 (Version d) [(''hyperkube'', ''hyperkube'')],
                  Inr (RConfig kubeProxy)) \<and>
               map_of kubeProxyConfig1 ''podAnnotations'' =
                 Some (VMap [(''checksum/secret-kube-proxy'', VStr (checkSum b ''kube-proxy''))]) \<and>
               trace s' ! (length (trace s) + 3) =
                 (InjectImagesCall metricsServerConfig1 (Version d)
                    [(''metrics-server'', ''metrics-server'')], Inr (RConfig metricsServer)) \<and>
               map_of metricsServerConfig1 ''podAnnotations'' = None \<and>
               trace s' ! (length (trace s) + 4) =
                 (InjectImagesCall vpnShootConfig1 (Version d) [(''vpn-shoot'', ''vpn-shoot'')],
                  Inr (RConfig vpnShoot)) \<and>
               map_of vpnShootConfig1 ''podAnnotations'' =
                 Some (VMap [(''checksum/secret-vpn-shoot'', VStr (checkSum b ''vpn-shoot''))])"
    if run: "generateCoreAddonsChart d b s = (Ok chart, s')" for s chart s'
  proof -
    from run obtain kps cams mss tls vpnCfg vss calico kubeDNS kubeProxy metricsServer vpnShoot
        nodeExporter w w'
      where set: "setDiffieHellmanKey d b (vpnShootConfig d b tls) = Some vpnCfg"
        and tr: "trace s' = trace s @
                   coreEvents d b kps cams mss vpnCfg vss calico kubeDNS kubeProxy metricsServer
                     vpnShoot nodeExporter chart"
      by (rule core_success)
    have e2: "trace s' ! (length (trace s) + 2) =
        (InjectImagesCall (kubeProxyConfig b kps) (Version d) [(''hyperkube'', ''hyperkube'')],
         Inr (RConfig kubeProxy))"
      and e3: "trace s' ! (length (trace s) + 3) =
        (InjectImagesCall (metricsServerConfig d cams mss) (Version d)
           [(''metrics-server'', ''metrics-server'')], Inr (RConfig metricsServer))"
      and e4: "trace s' ! (length (trace s) + 4) =
        (InjectImagesCall vpnCfg (Version d) [(''vpn-shoot'', ''vpn-shoot'')],
         Inr (RConfig vpnShoot))"
      by (simp_all add: tr coreEvents_def nth_append)
    show ?thesis
      apply (rule exI [of _ "kubeProxyConfig b kps"])
      apply (rule exI [of _ "metricsServerConfig d cams mss"])
      apply (rule exI [of _ vpnCfg], rule exI [of _ kubeProxy], rule exI [of _ metricsServer])
      apply (rule exI [of _ vpnShoot])
      apply (intro conjI)
      apply (rule e2 kp e3 ms e4 vpn [OF set])+
      done
  qed
  have kp_same: "kubeProxyConfig b' kps = kubeProxyConfig b kps" if "name \<noteq> ''kube-proxy''" for kps
    using that by (simp add: kubeProxyConfig_def shoot sums)
  have vpn_same: "vpnShootConfig d b' tls = vpnShootConfig d b tls" if "name \<noteq> ''vpn-shoot''" for tls
    using that by (simp add: vpnShootConfig_def shoot sums)
  have dh_same: "setDiffieHellmanKey d b' c = setDiffieHellmanKey d b c" for c
    using dh by (simp add: setDiffieHellmanKey_def secs)
  have c1: "name = ''kube-proxy'' \<longrightarrow>
            ((map_of (kubeProxyConfig b' secret') ''podAnnotations'' =
                map_of (kubeProxyConfig b kubeProxySecret) ''podAnnotations'') =
             (checkSum b' ''kube-proxy'' = checkSum b ''kube-proxy'')) \<and>
            vpnShootConfig d b' vpnTLSAuthSecret = vpnShootConfig d b vpnTLSAuthSecret \<and>
            setDiffieHellmanKey d b' vpnShootConfig0 = setDiffieHellmanKey d b vpnShootConfig0"
    by (auto simp: kp vpn_same dh_same)
  have c2: "name = ''vpn-shoot'' \<longrightarrow>
            ((map_of (vpnShootConfig d b' vpnTLSAuthSecret) ''podAnnotations'' =
                map_of (vpnShootConfig d b vpnTLSAuthSecret) ''podAnnotations'') =
             (checkSum b' ''vpn-shoot'' = checkSum b ''vpn-shoot'')) \<and>
            kubeProxyConfig b' kubeProxySecret = kubeProxyConfig b kubeProxySecret"
    by (auto simp: vpn0 kp_same)
  have c3: "checkSum b' name = (case newEntry of None \<Rightarrow> [] | Some c \<Rightarrow> c)"
    by (simp add: sums)
  have c4: "calicoConfig b' = calicoConfig b" "kubeDNSConfig d b' = kubeDNSConfig d b"
    "global d b' = global d b"
    by (simp_all add: calicoConfig_def kubeDNSConfig_def global_def shoot)
  have c5: "\<forall>other. other \<noteq> name \<longrightarrow>
            secretAt b' other = secretAt b other \<and> checkSum b' other = checkSum b other"
    by (simp add: secretAt_def secs sums)
  have c0: "\<forall>vpnShootConfig1.
            setDiffieHellmanKey d b (vpnShootConfig d b vpnTLSAuthSecret) = Some vpnShootConfig1 \<longrightarrow>
            map_of vpnShootConfig1 ''podAnnotations'' =
              Some (VMap [(''checksum/secret-vpn-shoot'', VStr (checkSum b ''vpn-shoot''))])"
    using vpn by blast
  have cr: "\<forall>s chart s'. generateCoreAddonsChart d b s = (Ok chart, s') \<longrightarrow>
            (\<exists>kubeProxyConfig1 metricsServerConfig1 vpnShootConfig1 kubeProxy metricsServer vpnShoot.
               trace s' ! (length (trace s) + 2) =
                 (InjectImagesCall kubeProxyConfig1 (Version d) [(''hyperkube'', ''hyperkube'')],
                  Inr (RConfig kubeProxy)) \<and>
               map_of kubeProxyConfig1 ''podAnnotations'' =
                 Some (VMap [(''checksum/secret-kube-proxy'', VStr (checkSum b ''kube-proxy''))]) \<and>
               trace s' ! (length (trace s) + 3) =
                 (InjectImagesCall metricsServerConfig1 (Version d)
                    [(''metrics-server'', ''metrics-server'')], Inr (RConfig metricsServer)) \<and>
               map_of metricsServerConfig1 ''podAnnotations'' = None \<and>
               trace s' ! (length (trace s) + 4) =
                 (InjectImagesCall vpnShootConfig1 (Version d) [(''vpn-shoot'', ''vpn-shoot'')],
                  Inr (RConfig vpnShoot)) \<and>
               map_of vpnShootConfig1 ''podAnnotations'' =
                 Some (VMap [(''checksum/secret-vpn-shoot'', VStr (checkSum b ''vpn-shoot''))]))"
    by (intro allI impI) (rule runs)
  show ?thesis
    apply (intro conjI)
    apply (rule kp c0 ms cr c1 c2 c3 c4 c5)+
    done
qed

text \<open>
  On the example bundle: with a new kube-proxy secret and a new entry, with a new
  vpn-shoot secret and a new entry, with a new kube-proxy secret and the old entry, and
  the three configurations of a run.
\<close>

theorem checksum_annotations_witness:
  "map_of (kubeProxyConfig rotatedKubeProxyBotanist \<lparr>Data = [(''kubeconfig'', ''kc2'')]\<rparr>)
       ''podAnnotations'' \<noteq>
     map_of (kubeProxyConfig exampleBotanist \<lparr>Data = [(''kubeconfig'', ''kc'')]\<rparr>) ''podAnnotations'' \<and>
   vpnShootConfig exampleDeps rotatedKubeProxyBotanist \<lparr>Data = [(''vpn.tlsauth'', ''psk'')]\<rparr> =
     vpnShootConfig exampleDeps exampleBotanist \<lparr>Data = [(''vpn.tlsauth'', ''psk'')]\<rparr> \<and>
   calicoConfig rotatedKubeProxyBotanist = calicoConfig exampleBotanist \<and>
   kubeDNSConfig exampleDeps rotatedKubeProxyBotanist = kubeDNSConfig exampleDeps exampleBotanist \<and>
   secretAt rotatedKubeProxyBotanist ''metrics-server'' = secretAt exampleBotanist ''metrics-server'' \<and>
   map_of (vpnShootConfig exampleDeps rotatedVPNShootBotanist \<lparr>Data = [(''vpn.tlsauth'', ''psk'')]\<rparr>)
       ''podAnnotations'' \<noteq>
     map_of (vpnShootConfig exampleDeps exampleBotanist \<lparr>Data = [(''vpn.tlsauth'', ''psk'')]\<rparr>)
       ''podAnnotations'' \<and>
   kubeProxyConfig rotatedVPNShootBotanist \<lparr>Data = [(''kubeconfig'', ''kc'')]\<rparr> =
     kubeProxyConfig exampleBotanist \<lparr>Data = [(''kubeconfig'', ''kc'')]\<rparr> \<and>
   map_of (kubeProxyConfig contentOnlyBotanist \<lparr>Data = [(''kubeconfig'', ''kc2'')]\<rparr>)
       ''podAnnotations'' =
     map_of (kubeProxyConfig exampleBotanist \<lparr>Data = [(''kubeconfig'', ''kc'')]\<rparr>) ''podAnnotations'' \<and>
   (\<exists>kubeProxyConfig1 metricsServerConfig1 vpnShootConfig1 kubeProxy metricsServer vpnShoot.
      trace (snd (generateCoreAddonsChart exampleDeps exampleBotanist (start emptyCluster))) ! 2 =
        (InjectImagesCall kubeProxyConfig1 ''1.11.0'' [(''hyperkube'', ''hyperkube'')],
         Inr (RConfig kubeProxy)) \<and>
      map_of kubeProxyConfig1 ''podAnnotations'' =
        Some (VMap [(''checksum/secret-kube-proxy'', VStr ''c1'')]) \<and>
      trace (snd (generateCoreAddonsChart exampleDeps exampleBotanist (start emptyCluster))) ! 3 =
        (InjectImagesCall metricsServerConfig1 ''1.11.0''
           [(''metrics-server'', ''metrics-server'')], Inr (RConfig metricsServer)) \<and>
      map_of metricsServerConfig1 ''podAnnotations'' = None \<and>
      trace (snd (generateCoreAddonsChart exampleDeps exampleBotanist (start emptyCluster))) ! 4 =
        (InjectImagesCall vpnShootConfig1 ''1.11.0'' [(''vpn-shoot'', ''vpn-shoot'')],
         Inr (RConfig vpnShoot)) \<and>
      map_of vpnShootConfig1 ''podAnnotations'' =
        Some (VMap [(''checksum/secret-vpn-shoot'', VStr ''c2'')]))"
proof -
  let ?kc = "\<lparr>Data = [(''kubeconfig'', ''kc'')]\<rparr>"
  let ?psk = "\<lparr>Data = [(''vpn.tlsauth'', ''psk'')]\<rparr>"
  let ?run = "generateCoreAddonsChart exampleDeps exampleBotanist (start emptyCluster)"
  have d1: "GardenRoleOpenVPNDiffieHellman exampleDeps \<noteq> ''kube-proxy''"
    and d2: "GardenRoleOpenVPNDiffieHellman exampleDeps \<noteq> ''vpn-shoot''"
    by (simp_all add: exampleDeps_def)
  have content: "contentOnlyBotanist =
      exampleBotanist\<lparr>Secrets := (Secrets exampleBotanist)(''kube-proxy'' \<mapsto>
                          Some \<lparr>Data = [(''kubeconfig'', ''kc2'')]\<rparr>),
                      CheckSums := (CheckSums exampleBotanist)(''kube-proxy'' := Some ''c1'')\<rparr>"
    by (simp add: contentOnlyBotanist_def exampleBotanist_def fun_upd_twist)
  have sums: "checkSum exampleBotanist ''kube-proxy'' = ''c1''"
    "checkSum exampleBotanist ''vpn-shoot'' = ''c2''"
    by (simp_all add: checkSum_def exampleBotanist_def)
  have version: "Version exampleDeps = ''1.11.0''" by (simp add: exampleDeps_def)
  have r: "fst ?run = Ok [''shoot-core'']" by code_simp
  then have run: "?run = (Ok [''shoot-core''], snd ?run)" by (metis prod.collapse)
  have t0: "length (trace (start emptyCluster)) = 0" by (simp add: start_def)
  note k = checksum_annotations [OF d1 rotatedKubeProxyBotanist_def,
      where kubeProxySecret = ?kc and vpnTLSAuthSecret = ?psk]
  note v = checksum_annotations [OF d2 rotatedVPNShootBotanist_def,
      where kubeProxySecret = ?kc and vpnTLSAuthSecret = ?psk]
  note c = checksum_annotations [OF d1 content,
      where kubeProxySecret = ?kc and vpnTLSAuthSecret = ?psk]
  note tl = conjunct2 [THEN conjunct2, THEN conjunct2]
  note k4 = k [THEN tl, THEN conjunct2]
  note k1 = k4 [THEN conjunct1, THEN mp, OF refl]
  note k3 = k4 [THEN conjunct2, THEN conjunct2, THEN conjunct1]
  note k5 = k4 [THEN tl]
  note v4 = v [THEN tl, THEN conjunct2]
  note v1 = v4 [THEN conjunct2, THEN conjunct1, THEN mp, OF refl]
  note v3 = v4 [THEN conjunct2, THEN conjunct2, THEN conjunct1]
  note c4 = c [THEN tl, THEN conjunct2]
  note c1 = c4 [THEN conjunct1, THEN mp, OF refl]
  note c3 = c4 [THEN conjunct2, THEN conjunct2, THEN conjunct1]
  note kr = k [THEN tl, THEN conjunct1, THEN spec, THEN spec, THEN spec, THEN mp, OF run]
  have a1: "map_of (kubeProxyConfig rotatedKubeProxyBotanist \<lparr>Data = [(''kubeconfig'', ''kc2'')]\<rparr>)
       ''podAnnotations'' \<noteq> map_of (kubeProxyConfig exampleBotanist ?kc) ''podAnnotations''"
    using k1 [THEN conjunct1] k3 by (simp add: sums)
  have a2: "vpnShootConfig exampleDeps rotatedKubeProxyBotanist ?psk =
      vpnShootConfig exampleDeps exampleBotanist ?psk"
    by (rule k1 [THEN conjunct2, THEN conjunct1])
  have a3: "calicoConfig rotatedKubeProxyBotanist = calicoConfig exampleBotanist"
    and a4: "kubeDNSConfig exampleDeps rotatedKubeProxyBotanist = kubeDNSConfig exampleDeps exampleBotanist"
    by (rule k5 [THEN conjunct1], rule k5 [THEN conjunct2, THEN conjunct1])
  have a5: "secretAt rotatedKubeProxyBotanist ''metrics-server'' = secretAt exampleBotanist ''metrics-server''"
    using k5 by simp
  have a6: "map_of (vpnShootConfig exampleDeps rotatedVPNShootBotanist ?psk) ''podAnnotations'' \<noteq>
      map_of (vpnShootConfig exampleDeps exampleBotanist ?psk) ''podAnnotations''"
    using v1 [THEN conjunct1] v3 by (simp add: sums)
  have a7: "kubeProxyConfig rotatedVPNShootBotanist ?kc = kubeProxyConfig exampleBotanist ?kc"
    by (rule v1 [THEN conjunct2])
  have a8: "map_of (kubeProxyConfig contentOnlyBotanist \<lparr>Data = [(''kubeconfig'', ''kc2'')]\<rparr>)
       ''podAnnotations'' = map_of (kubeProxyConfig exampleBotanist ?kc) ''podAnnotations''"
    using c1 [THEN conjunct1] c3 by (simp add: sums)
  have a9: "\<exists>kubeProxyConfig1 metricsServerConfig1 vpnShootConfig1 kubeProxy metricsServer vpnShoot.
      trace (snd ?run) ! 2 =
        (InjectImagesCall kubeProxyConfig1 ''1.11.0'' [(''hyperkube'', ''hyperkube'')],
         Inr (RConfig kubeProxy)) \<and>
      map_of kubeProxyConfig1 ''podAnnotations'' =
        Some (VMap [(''checksum/secret-kube-proxy'', VStr ''c1'')]) \<and>
      trace (snd ?run) ! 3 =
        (InjectImagesCall metricsServerConfig1 ''1.11.0''
           [(''metrics-server'', ''metrics-server'')], Inr (RConfig metricsServer)) \<and>
      map_of metricsServerConfig1 ''podAnnotations'' = None \<and>
      trace (snd ?run) ! 4 =
        (InjectImagesCall vpnShootConfig1 ''1.11.0'' [(''vpn-shoot'', ''vpn-shoot'')],
         Inr (RConfig vpnShoot)) \<and>
      map_of vpnShootConfig1 ''podAnnotations'' =
        Some (VMap [(''checksum/secret-vpn-shoot'', VStr ''c2'')])"
    by (rule kr [unfolded t0 sums version add_0])
  show ?thesis
    apply (intro conjI)
    apply (rule a1 a2 a3 a4 a5 a6 a7 a8 a9)+
    done
qed

text \<open>
  The claim as first stated does not hold. The metrics-server configuration, the fourth
  that a run hands to image injection, is built from two secrets and has no pod
  annotation at all. When the secret \<^verbatim>\<open>vpn-seed-tlsauth\<close> and its checksum change, the
  vpn-shoot configuration changes in \<^verbatim>\<open>tlsAuth\<close> while its annotation stays what it
  was: it is the checksum of the secret \<^verbatim>\<open>vpn-shoot\<close>. And two runs that differ only in
  the content of the kube-proxy secret hand the same annotation to image injection: the
  function reads the Checksum Map, it computes no checksum.
\<close>

theorem checksum_annotations_counterexample:
  "fst (trace (snd (generateCoreAddonsChart exampleDeps exampleBotanist (start emptyCluster))) ! 3) =
     InjectImagesCall
       [(''tls'', VMap [(''caBundle'', VBytes ''ca'')]),
        (''secret'', VMap [(''data'', VMap [(''tls.crt'', VBytes ''crt'')])])]
       ''1.11.0'' [(''metrics-server'', ''metrics-server'')] \<and>
   map_of [(''tls'', VMap [(''caBundle'', VBytes ''ca'')]),
           (''secret'', VMap [(''data'', VMap [(''tls.crt'', VBytes ''crt'')])])]
     ''podAnnotations'' = None \<and>
   secretAt rotatedTLSAuthBotanist ''vpn-seed-tlsauth'' \<noteq> secretAt exampleBotanist ''vpn-seed-tlsauth'' \<and>
   checkSum rotatedTLSAuthBotanist ''vpn-seed-tlsauth'' \<noteq> checkSum exampleBotanist ''vpn-seed-tlsauth'' \<and>
   fst (trace (snd (generateCoreAddonsChart exampleDeps exampleBotanist (start emptyCluster))) ! 4) =
     InjectImagesCall
       [(''podNetwork'', VStr ''100.96.0.0/11''), (''serviceNetwork'', VStr ''100.64.0.0/13''),
        (''nodeNetwork'', VStr ''10.250.0.0/16''), (''tlsAuth'', VBytes ''psk''),
        (''podAnnotations'', VMap [(''checksum/secret-vpn-shoot'', VStr ''c2'')])]
       ''1.11.0'' [(''vpn-shoot'', ''vpn-shoot'')] \<and>
   fst (trace (snd (generateCoreAddonsChart exampleDeps rotatedTLSAuthBotanist (start emptyCluster))) ! 4) =
     InjectImagesCall
       [(''podNetwork'', VStr ''100.96.0.0/11''), (''serviceNetwork'', VStr ''100.64.0.0/13''),
        (''nodeNetwork'', VStr ''10.250.0.0/16''), (''tlsAuth'', VBytes ''new''),
        (''podAnnotations'', VMap [(''checksum/secret-vpn-shoot'', VStr ''c2'')])]
       ''1.11.0'' [(''vpn-shoot'', ''vpn-shoot'')] \<and>
   secretAt contentOnlyBotanist ''kube-proxy'' \<noteq> secretAt exampleBotanist ''kube-proxy'' \<and>
   Shoot contentOnlyBotanist = Shoot exampleBotanist \<and>
   fst (trace (snd (generateCoreAddonsChart exampleDeps exampleBotanist (start emptyCluster))) ! 2) =
     InjectImagesCall
       [(''kubeconfig'', VBytes ''kc''),
        (''podAnnotations'', VMap [(''checksum/secret-kube-proxy'', VStr ''c1'')])]
       ''1.11.0'' [(''hyperkube'', ''hyperkube'')] \<and>
   fst (trace (snd (generateCoreAddonsChart exampleDeps contentOnlyBotanist (start emptyCluster))) ! 2) =
     InjectImagesCall
       [(''kubeconfig'', VBytes ''kc2''),
        (''podAnnotations'', VMap [(''checksum/secret-kube-proxy'', VStr ''c1'')])]
       ''1.11.0'' [(''hyperkube'', ''hyperkube'')]"
  by code_simp

section \<open>The cleanup of the legacy heapster deployments\<close>



section \<open>The nginx-ingress configuration\<close>

text \<open>
  Claim C4, as amended. The code has one condition, \<^verbatim>\<open>NginxIngressEnabled\<close>: there is
  no separate flag for the source-range restriction. The configuration that
  \<^verbatim>\<open>generateOptionalAddonsChart\<close> hands to image injection for nginx-ingress comes from
  the configuration \<open>base\<close> that the provider's \<^verbatim>\<open>GenerateNginxIngressConfig\<close>
  returned. When \<^verbatim>\<open>NginxIngressEnabled\<close> is false it is \<open>base\<close> itself, and
  \<^verbatim>\<open>MergeMaps\<close> is not applied. When it is true, the source ranges of the shoot are
  merged in, whatever they are, the empty list too, and the resource limits are merged
  in on top exactly when the shoot is used as a seed.
\<close>

theorem nginx_ingress_merge:
  assumes run: "generateOptionalAddonsChart d b s = (r, s')" and tr: "trace s' = trace s @ evs"
    and inj: "(InjectImagesCall cfg v nginxIngressImages, out) \<in> set evs"
  shows "\<exists>base. (GenerateNginxIngressConfigCall, Inr (RConfig base)) \<in> set evs \<and>
           (\<not> NginxIngressEnabled d (Shoot b) \<longrightarrow> cfg = base) \<and>
           (NginxIngressEnabled d (Shoot b) \<longrightarrow>
              (\<exists>addons nginx.
                 Addons (Spec (Info (Shoot b))) = Some addons \<and> NginxIngress addons = Some nginx \<and>
                 cfg = (if IsUsedAsSeed d (Info (Shoot b))
                        then MergeMaps d (MergeMaps d base (sourceRangesOverride nginx))
                               resourceLimitsOverride
                        else MergeMaps d base (sourceRangesOverride nginx))))"
proof -
  have "\<exists>base t. (GenerateNginxIngressConfigCall, Inr (RConfig base)) \<in> set evs \<and>
          mergeNginxIngressConfig d b base t = (Ok cfg, t)"
    using run tr inj
    unfolding generateOptionalAddonsChart_def call_defs
    apply (elim seq_invokeE seq_mergeNginxIngressConfigE seq_cleanupHeapsterE invokeE)
    apply (auto simp: nginxIngressImages_def)
    done
  then obtain base t where "(GenerateNginxIngressConfigCall, Inr (RConfig base)) \<in> set evs"
    and "mergeNginxIngressConfig d b base t = (Ok cfg, t)"
    by blast
  with mergeNginxIngressConfig_Ok [of d b base t cfg t] show ?thesis
    by (intro exI [of _ base]) simp
qed

text \<open>
  On the example cluster: without the nginx-ingress addon the provider's configuration is
  injected as it is; with the addon, and a shoot that is no seed, the source ranges are
  merged in and nothing else; with a shoot that is a seed, the resource limits as well.
\<close>

theorem nginx_ingress_merge_witness:
  "InjectImagesCall
       [(''enabled'', VBool True),
        (''controller'', VMap [(''service'', VMap [(''type'', VStr ''LoadBalancer'')])])]
       ''1.11.0'' nginxIngressImages
     \<in> fst ` set (trace (snd (generateOptionalAddonsChart exampleDeps exampleBotanist
                                (start emptyCluster)))) \<and>
   (GenerateNginxIngressConfigCall,
    Inr (RConfig [(''enabled'', VBool True),
                  (''controller'', VMap [(''service'', VMap [(''type'', VStr ''LoadBalancer'')])])]))
     \<in> set (trace (snd (generateOptionalAddonsChart exampleDeps exampleBotanist
                          (start emptyCluster)))) \<and>
   InjectImagesCall
       [(''controller'', VMap [(''service'', VMap [(''loadBalancerSourceRanges'',
           VList [VStr ''10.0.0.0/8'']), (''type'', VStr ''LoadBalancer'')])]),
        (''enabled'', VBool True)]
       ''1.11.0'' nginxIngressImages
     \<in> fst ` set (trace (snd (generateOptionalAddonsChart exampleDeps exampleIngressBotanist
                                (start emptyCluster)))) \<and>
   (\<exists>base. (GenerateNginxIngressConfigCall, Inr (RConfig base))
        \<in> set (trace (snd (generateOptionalAddonsChart exampleDeps exampleIngressBotanist
                             (start emptyCluster)))) \<and>
      [(''controller'', VMap [(''service'', VMap [(''loadBalancerSourceRanges'',
          VList [VStr ''10.0.0.0/8'']), (''type'', VStr ''LoadBalancer'')])]),
       (''enabled'', VBool True)] =
        MergeMaps exampleDeps base
          (sourceRangesOverride \<lparr>LoadBalancerSourceRanges = [''10.0.0.0/8'']\<rparr>)) \<and>
   InjectImagesCall
       [(''controller'', VMap [(''resources'', VMap [(''limits'',
           VMap [(''cpu'', VStr ''500m''), (''memory'', VStr ''1024Mi'')])]),
          (''service'', VMap [(''loadBalancerSourceRanges'',
           VList [VStr ''10.0.0.0/8'']), (''type'', VStr ''LoadBalancer'')])]),
        (''enabled'', VBool True)]
       ''1.11.0'' nginxIngressImages
     \<in> fst ` set (trace (snd (generateOptionalAddonsChart seedDeps exampleIngressBotanist
                                (start emptyCluster)))) \<and>
   (\<exists>base. (GenerateNginxIngressConfigCall, Inr (RConfig base))
        \<in> set (trace (snd (generateOptionalAddonsChart seedDeps exampleIngressBotanist
                             (start emptyCluster)))) \<and>
      [(''controller'', VMap [(''resources'', VMap [(''limits'',
          VMap [(''cpu'', VStr ''500m''), (''memory'', VStr ''1024Mi'')])]),
         (''service'', VMap [(''loadBalancerSourceRanges'',
          VList [VStr ''10.0.0.0/8'']), (''type'', VStr ''LoadBalancer'')])]),
       (''enabled'', VBool True)] =
        MergeMaps seedDeps
          (MergeMaps seedDeps base
             (sourceRangesOverride \<lparr>LoadBalancerSourceRanges = [''10.0.0.0/8'']\<rparr>))
          resourceLimitsOverride)"
proof -
  let ?off = "generateOptionalAddonsChart exampleDeps exampleBotanist (start emptyCluster)"
  let ?on = "generateOptionalAddonsChart exampleDeps exampleIngressBotanist (start emptyCluster)"
  let ?c0 = "[(''enabled'', VBool True),
       (''controller'', VMap [(''service'', VMap [(''type'', VStr ''LoadBalancer'')])])]"
  let ?c1 = "[(''controller'', VMap [(''service'', VMap [(''loadBalancerSourceRanges'',
          VList [VStr ''10.0.0.0/8'']), (''type'', VStr ''LoadBalancer'')])]),
       (''enabled'', VBool True)]"
  let ?seed = "generateOptionalAddonsChart seedDeps exampleIngressBotanist (start emptyCluster)"
  let ?c2 = "[(''controller'', VMap [(''resources'', VMap [(''limits'',
          VMap [(''cpu'', VStr ''500m''), (''memory'', VStr ''1024Mi'')])]),
         (''service'', VMap [(''loadBalancerSourceRanges'',
          VList [VStr ''10.0.0.0/8'']), (''type'', VStr ''LoadBalancer'')])]),
       (''enabled'', VBool True)]"
  have off: "?off = (fst ?off, snd ?off)" and on: "?on = (fst ?on, snd ?on)"
    and seeded: "?seed = (fst ?seed, snd ?seed)"
    by simp_all
  have t0: "trace (snd ?off) = trace (start emptyCluster) @ trace (snd ?off)"
    and t1: "trace (snd ?on) = trace (start emptyCluster) @ trace (snd ?on)"
    and t2: "trace (snd ?seed) = trace (start emptyCluster) @ trace (snd ?seed)"
    by (simp_all add: start_def)
  have i2: "InjectImagesCall ?c2 ''1.11.0'' nginxIngressImages \<in> fst ` set (trace (snd ?seed))"
    by code_simp
  then obtain out2 where m2: "(InjectImagesCall ?c2 ''1.11.0'' nginxIngressImages, out2)
      \<in> set (trace (snd ?seed))"
    by auto
  have enabled2: "NginxIngressEnabled seedDeps (Shoot exampleIngressBotanist)"
    and seed2: "IsUsedAsSeed seedDeps (Info (Shoot exampleIngressBotanist))"
    by (simp_all add: seedDeps_def exampleDeps_def exampleIngressBotanist_def)
  have i0: "InjectImagesCall ?c0 ''1.11.0'' nginxIngressImages \<in> fst ` set (trace (snd ?off))"
    by code_simp
  then obtain out0 where m0: "(InjectImagesCall ?c0 ''1.11.0'' nginxIngressImages, out0)
      \<in> set (trace (snd ?off))"
    by auto
  have i1: "InjectImagesCall ?c1 ''1.11.0'' nginxIngressImages \<in> fst ` set (trace (snd ?on))"
    by code_simp
  then obtain out1 where m1: "(InjectImagesCall ?c1 ''1.11.0'' nginxIngressImages, out1)
      \<in> set (trace (snd ?on))"
    by auto
  have disabled: "\<not> NginxIngressEnabled exampleDeps (Shoot exampleBotanist)"
    by (simp add: exampleDeps_def exampleBotanist_def exampleShoot_def)
  have enabled: "NginxIngressEnabled exampleDeps (Shoot exampleIngressBotanist)"
    and seed: "\<not> IsUsedAsSeed exampleDeps (Info (Shoot exampleIngressBotanist))"
    and addons: "Addons (Spec (Info (Shoot exampleIngressBotanist))) =
        Some \<lparr>NginxIngress = Some \<lparr>LoadBalancerSourceRanges = [''10.0.0.0/8'']\<rparr>\<rparr>"
    by (simp_all add: exampleDeps_def exampleIngressBotanist_def)
  from nginx_ingress_merge [OF off t0 m0] disabled
  have first: "(GenerateNginxIngressConfigCall, Inr (RConfig ?c0)) \<in> set (trace (snd ?off))"
    by (elim exE conjE) simp
  from nginx_ingress_merge [OF on t1 m1] enabled seed addons
  have second: "\<exists>base. (GenerateNginxIngressConfigCall, Inr (RConfig base)) \<in> set (trace (snd ?on)) \<and>
      ?c1 = MergeMaps exampleDeps base
          (sourceRangesOverride \<lparr>LoadBalancerSourceRanges = [''10.0.0.0/8'']\<rparr>)"
    by (elim exE conjE) (rule exI, erule conjI, auto)
  from nginx_ingress_merge [OF seeded t2 m2] enabled2 seed2 addons
  have third: "\<exists>base. (GenerateNginxIngressConfigCall, Inr (RConfig base)) \<in> set (trace (snd ?seed)) \<and>
      ?c2 = MergeMaps seedDeps
          (MergeMaps seedDeps base
             (sourceRangesOverride \<lparr>LoadBalancerSourceRanges = [''10.0.0.0/8'']\<rparr>))
          resourceLimitsOverride"
    by (elim exE conjE) (rule exI, erule conjI, auto)
  show ?thesis
    apply (intro conjI)
    apply (rule i0 first i1 second i2 third)+
    done
qed

text \<open>
  The claim as first stated does not hold. A shoot with the nginx-ingress addon and an
  empty list of source ranges has no restriction, and yet the merge is applied: with the
  merge of section 4.2 of the specification the injected configuration has the key
  \<^verbatim>\<open>loadBalancerSourceRanges\<close> with the empty list, and is not the provider's
  configuration.
\<close>

theorem nginx_ingress_merge_counterexample:
  "Addons (Spec (Info (Shoot openIngressBotanist))) =
     Some \<lparr>NginxIngress = Some \<lparr>LoadBalancerSourceRanges = []\<rparr>\<rparr> \<and>
   fst (generateOptionalAddonsChart exampleDeps openIngressBotanist (start emptyCluster)) =
     Ok [''addons''] \<and>
   trace (snd (generateOptionalAddonsChart exampleDeps openIngressBotanist (start emptyCluster))) ! 6 =
     (GenerateNginxIngressConfigCall,
      Inr (RConfig [(''enabled'', VBool True),
                    (''controller'', VMap [(''service'', VMap [(''type'', VStr ''LoadBalancer'')])])])) \<and>
   fst (trace (snd (generateOptionalAddonsChart exampleDeps openIngressBotanist
                      (start emptyCluster))) ! 12) =
     InjectImagesCall
       [(''controller'', VMap [(''service'', VMap [(''loadBalancerSourceRanges'', VList []),
           (''type'', VStr ''LoadBalancer'')])]),
        (''enabled'', VBool True)]
       ''1.11.0'' nginxIngressImages \<and>
   [(''controller'', VMap [(''service'', VMap [(''loadBalancerSourceRanges'', VList []),
       (''type'', VStr ''LoadBalancer'')])]),
    (''enabled'', VBool True)] =
     MergeMaps exampleDeps
       [(''enabled'', VBool True),
        (''controller'', VMap [(''service'', VMap [(''type'', VStr ''LoadBalancer'')])])]
       (sourceRangesOverride \<lparr>LoadBalancerSourceRanges = []\<rparr>) \<and>
   [(''controller'', VMap [(''service'', VMap [(''loadBalancerSourceRanges'', VList []),
       (''type'', VStr ''LoadBalancer'')])]),
    (''enabled'', VBool True)] \<noteq>
     [(''enabled'', VBool True),
      (''controller'', VMap [(''service'', VMap [(''type'', VStr ''LoadBalancer'')])])]"
  by code_simp

section \<open>Merging configuration maps\<close>

lemma map_of_map_entries:
  "map_of (map (\<lambda>(k, v). (k, g k v)) xs) k = map_option (g k) (map_of xs k)"
  by (induction xs) auto

lemma map_of_filter_absent:
  "map_of (filter (\<lambda>(k, v). map_of b k = None) xs) k =
     (if map_of b k = None then map_of xs k else None)"
  by (induction xs) auto

lemma map_of_MergeMaps_spec:
  "map_of (MergeMaps_spec a b) k =
     (case map_of b k of
        None \<Rightarrow> map_of a k
      | Some v \<Rightarrow>
          Some (case (map_of a k, v) of
                  (Some (VMap am), VMap bm) \<Rightarrow> VMap (MergeMaps_spec am bm)
                | _ \<Rightarrow> v))"
  by (subst MergeMaps_spec.simps)
    (simp add: map_add_def map_of_map_entries map_of_filter_absent split: option.splits)

text \<open>
  Claim C5, about \<^const>\<open>MergeMaps_spec\<close>, the model of \<^verbatim>\<open>utils.MergeMaps\<close> that follows
  the specification. Where both maps hold a map under a key, the result holds the merge of
  the two; where the override holds a value under a key and the two are not both maps, the
  result holds the override's value as it is, whole; a key of only one of the two maps
  keeps its value; the keys of the result are the keys of the two maps.
\<close>

theorem merge_maps_precedence:
  "(map_of a k = Some (VMap am) \<and> map_of b k = Some (VMap bm) \<longrightarrow>
      map_of (MergeMaps_spec a b) k = Some (VMap (MergeMaps_spec am bm))) \<and>
   (map_of b k = Some v \<and> (\<forall>am bm. \<not> (map_of a k = Some (VMap am) \<and> v = VMap bm)) \<longrightarrow>
      map_of (MergeMaps_spec a b) k = Some v) \<and>
   (map_of b k = None \<longrightarrow> map_of (MergeMaps_spec a b) k = map_of a k) \<and>
   (map_of a k = None \<longrightarrow> map_of (MergeMaps_spec a b) k = map_of b k) \<and>
   dom (map_of (MergeMaps_spec a b)) = dom (map_of a) \<union> dom (map_of b)"
proof (intro conjI impI)
  assume "map_of a k = Some (VMap am) \<and> map_of b k = Some (VMap bm)"
  then show "map_of (MergeMaps_spec a b) k = Some (VMap (MergeMaps_spec am bm))"
    by (simp add: map_of_MergeMaps_spec)
next
  assume "map_of b k = Some v \<and> (\<forall>am bm. \<not> (map_of a k = Some (VMap am) \<and> v = VMap bm))"
  then show "map_of (MergeMaps_spec a b) k = Some v"
    by (auto simp: map_of_MergeMaps_spec split: option.splits cfg.splits)
next
  assume "map_of b k = None"
  then show "map_of (MergeMaps_spec a b) k = map_of a k"
    by (simp add: map_of_MergeMaps_spec)
next
  assume "map_of a k = None"
  then show "map_of (MergeMaps_spec a b) k = map_of b k"
    by (simp add: map_of_MergeMaps_spec split: option.splits)
next
  show "dom (map_of (MergeMaps_spec a b)) = dom (map_of a) \<union> dom (map_of b)"
    by (auto simp: dom_def map_of_MergeMaps_spec split: option.splits)
qed

text \<open>On two small maps: a nested map, a list, a key of the base only, a key of the override only.\<close>

theorem merge_maps_precedence_witness:
  "map_of (MergeMaps_spec exampleBase exampleOverride) ''controller'' =
     Some (VMap (MergeMaps_spec
       [(''service'', VMap [(''type'', VStr ''LoadBalancer'')])]
       [(''service'', VMap [(''loadBalancerSourceRanges'', VList [VStr ''10.0.0.0/8''])])])) \<and>
   map_of (MergeMaps_spec exampleBase exampleOverride) ''ranges'' = Some (VList [VStr ''b'']) \<and>
   map_of (MergeMaps_spec exampleBase exampleOverride) ''enabled'' = Some (VBool True) \<and>
   map_of (MergeMaps_spec exampleBase exampleOverride) ''extra'' = Some (VStr ''x'')"
proof -
  have h1: "map_of exampleBase ''controller'' =
              Some (VMap [(''service'', VMap [(''type'', VStr ''LoadBalancer'')])]) \<and>
            map_of exampleOverride ''controller'' =
              Some (VMap [(''service'', VMap [(''loadBalancerSourceRanges'',
                VList [VStr ''10.0.0.0/8''])])])"
    by (simp add: exampleBase_def exampleOverride_def)
  have h2: "map_of exampleOverride ''ranges'' = Some (VList [VStr ''b'']) \<and>
            (\<forall>am bm. \<not> (map_of exampleBase ''ranges'' = Some (VMap am) \<and> VList [VStr ''b''] = VMap bm))"
    by (simp add: exampleOverride_def)
  have h3: "map_of exampleOverride ''enabled'' = None"
    by (simp add: exampleOverride_def)
  have h4: "map_of exampleBase ''extra'' = None"
    by (simp add: exampleBase_def)
  have a: "map_of exampleBase ''enabled'' = Some (VBool True)"
    by (simp add: exampleBase_def)
  have b: "map_of exampleOverride ''extra'' = Some (VStr ''x'')"
    by (simp add: exampleOverride_def)
  note c1 = merge_maps_precedence [THEN conjunct1, THEN mp, OF h1]
  note c2 = merge_maps_precedence [THEN conjunct2, THEN conjunct1, THEN mp, OF h2]
  note c3 = merge_maps_precedence [where a = exampleBase, THEN conjunct2, THEN conjunct2,
      THEN conjunct1, THEN mp, OF h3]
  note c4 = merge_maps_precedence [where b = exampleOverride, THEN conjunct2, THEN conjunct2,
      THEN conjunct2, THEN conjunct1, THEN mp, OF h4]
  from c1 c2 c3 c4 a b show ?thesis by simp
qed

section \<open>The provider dispatcher\<close>

lemma MergeMaps_spec_empty_base: "MergeMaps_spec [] b = b"
  by (subst MergeMaps_spec.simps) (simp add: case_prod_unfold)

lemma MergeMaps_spec_empty_override: "MergeMaps_spec a [] = a"
  by (subst MergeMaps_spec.simps) (simp add: case_prod_unfold)

text \<open>
  Claim C8, about \<^const>\<open>dispatch\<close>, the model of the provider dispatcher that follows
  the specification. An operation that the provider does not support returns the empty
  configuration and leaves the world as it is; an error can only come from an operation
  the provider implements. The empty configuration merges: it is neutral on either side
  of \<^const>\<open>MergeMaps_spec\<close>. With a provider that does not support admission-control
  configuration, \<^verbatim>\<open>generateAdmissionControlsChart\<close> goes on to render with the empty
  configuration.
\<close>

theorem dispatcher_completeness:
  "(p operation = None \<longrightarrow> dispatch p operation w = (Inr [], w)) \<and>
   (\<forall>e. fst (dispatch p operation w) = Inl e \<longrightarrow>
      (\<exists>generate. p operation = Some generate \<and> fst (generate w) = Inl e)) \<and>
   MergeMaps_spec [] override = override \<and>
   MergeMaps_spec base [] = base \<and>
   (p GenerateAdmissionControlConfigOp = None \<longrightarrow>
      (\<exists>out. trace (snd (generateAdmissionControlsChart (withProvider p d) s)) =
         trace s @
           [(GenerateAdmissionControlConfigCall, Inr (RConfig [])),
            (RenderCall (Join d (ChartPath d) ''shoot-admission-controls'') ''admission-controls''
               NamespaceSystem [], out)]))"
proof (intro conjI impI allI)
  assume "p operation = None"
  then show "dispatch p operation w = (Inr [], w)" by (simp add: dispatch_def)
next
  fix e
  assume "fst (dispatch p operation w) = Inl e"
  then show "\<exists>generate. p operation = Some generate \<and> fst (generate w) = Inl e"
    by (cases "p operation") (simp_all add: dispatch_def)
next
  show "MergeMaps_spec [] override = override" by (rule MergeMaps_spec_empty_base)
  show "MergeMaps_spec base [] = base" by (rule MergeMaps_spec_empty_override)
next
  assume none: "p GenerateAdmissionControlConfigOp = None"
  obtain out w' where r: "Render d (Join d (ChartPath d) ''shoot-admission-controls'')
      ''admission-controls'' NamespaceSystem [] (world s) = (out, w')"
    by (cases "Render d (Join d (ChartPath d) ''shoot-admission-controls'')
      ''admission-controls'' NamespaceSystem [] (world s)")
  show "\<exists>out. trace (snd (generateAdmissionControlsChart (withProvider p d) s)) =
         trace s @
           [(GenerateAdmissionControlConfigCall, Inr (RConfig [])),
            (RenderCall (Join d (ChartPath d) ''shoot-admission-controls'') ''admission-controls''
               NamespaceSystem [], out)]"
    using none r
    by (cases out)
      (simp_all add: generateAdmissionControlsChart_def withProvider_def dispatch_def seq_def
        invoke_def render_def)
qed

text \<open>On the example provider.\<close>

theorem dispatcher_completeness_witness:
  "dispatch exampleProvider GenerateAdmissionControlConfigOp emptyCluster = (Inr [], emptyCluster) \<and>
   (\<exists>generate. exampleProvider GenerateKube2IAMConfigOp = Some generate \<and>
      fst (generate emptyCluster) = Inl (OtherError ''no role'')) \<and>
   (\<exists>out. trace (snd (generateAdmissionControlsChart (withProvider exampleProvider exampleDeps)
                        (start emptyCluster))) =
      trace (start emptyCluster) @
        [(GenerateAdmissionControlConfigCall, Inr (RConfig [])),
         (RenderCall (Join exampleDeps (ChartPath exampleDeps) ''shoot-admission-controls'')
            ''admission-controls'' NamespaceSystem [], out)])"
proof -
  have none: "exampleProvider GenerateAdmissionControlConfigOp = None"
    by (simp add: exampleProvider_def)
  have err: "fst (dispatch exampleProvider GenerateKube2IAMConfigOp emptyCluster) =
      Inl (OtherError ''no role'')"
    by (simp add: dispatch_def exampleProvider_def)
  note t = dispatcher_completeness [where p = exampleProvider and w = emptyCluster]
  note c1 = t [where operation = GenerateAdmissionControlConfigOp, THEN conjunct1, THEN mp, OF none]
  note c2 = t [where operation = GenerateKube2IAMConfigOp, THEN conjunct2, THEN conjunct1,
      THEN spec, THEN mp, OF err]
  note c3 = t [where d = exampleDeps and s = "start emptyCluster", THEN conjunct2, THEN conjunct2,
      THEN conjunct2, THEN conjunct2, THEN mp, OF none]
  from c1 c2 c3 show ?thesis by (intro conjI)
qed

end
